theory Spec2Isabelle
  imports Complex_Main "HOL-Library.Sublist" "HOL-Library.Multiset"
begin

section \<open>Values, objects and strings\<close>

text \<open>
  The handlers of \<^verbatim>\<open>WorkOutApi/atleta/controller.py\<close> move data between three dynamic
  shapes: pydantic model instances and their \<^verbatim>\<open>model_dump()\<close> dictionaries, keyword
  arguments, and ORM rows whose attributes are written with \<^verbatim>\<open>setattr\<close>. All three are
  modelled as one type of objects: an association list from attribute names to values, in
  insertion order as a Python dict keeps it.

  A Python \<^verbatim>\<open>str\<close> is a list of code points; the code points used by the messages of the
  controller lie below 256 and are written as single characters (\<^verbatim>\<open>0xE3\<close> is the a with
  tilde, \<^verbatim>\<open>0xE1\<close> the a with acute accent). A UUID is carried as its canonical text, which is
  what an f-string prints; a datetime as a number of microseconds; a float is only stored
  and compared, never computed with.
\<close>

datatype val =
    VStr string
  | VFloat real
  | VInt int
  | VUuid string
  | VDatetime nat
  | VObj "(string \<times> val) list"

type_synonym obj = "(string \<times> val) list"

definition getattr :: "obj \<Rightarrow> string \<Rightarrow> val option" where
  "getattr ob k = map_of ob k"

fun setattr :: "obj \<Rightarrow> string \<Rightarrow> val \<Rightarrow> obj" where
  "setattr [] k v = [(k, v)]"
| "setattr ((k', v') # kvs) k v =
     (if k' = k then (k, v) # kvs else (k', v') # setattr kvs k v)"

text \<open>\<^verbatim>\<open>x.categoria.nome\<close>: the name inside a nested object, when it is there and a string.\<close>

definition nested_nome :: "obj \<Rightarrow> string \<Rightarrow> string option" where
  "nested_nome ob k =
     (case getattr ob k of
        Some (VObj sub) \<Rightarrow> (case getattr sub ''nome'' of Some (VStr s) \<Rightarrow> Some s | _ \<Rightarrow> None)
      | _ \<Rightarrow> None)"

text \<open>Python's \<^verbatim>\<open>needle in hay\<close> on strings.\<close>

fun contains :: "string \<Rightarrow> string \<Rightarrow> bool" where
  "contains needle [] = (needle = [])"
| "contains needle (c # cs) = (prefix needle (c # cs) \<or> contains needle cs)"

text \<open>
  \<^verbatim>\<open>column.ilike(pattern)\<close>: SQL pattern matching without regard to case. In the pattern a
  percent sign stands for any run of characters, an underscore for any one character, and a
  backslash takes the character after it literally. A pattern that ends in a lone backslash
  matches nothing here; the handler never builds one, since its pattern ends in the percent
  sign it appends. What counts as the same letter is the database's affair: PostgreSQL
  compares the two sides after the case mapping of the database's locale, so the matching
  takes that mapping as an argument, and the store carries it.

  \<open>lower\<close> is the mapping of a UTF-8 locale on the code points below 256: the letters A to Z
  and the accented capitals from \<^verbatim>\<open>0xC0\<close> to \<^verbatim>\<open>0xDE\<close>, without the multiplication sign
  \<^verbatim>\<open>0xD7\<close>, go to their small letters, 32 code points further; every other code point is
  its own image.
\<close>

definition capital_letters :: string where
  "capital_letters =
     ''ABCDEFGHIJKLMNOPQRSTUVWXYZ''
     @ [CHR 0xC0, CHR 0xC1, CHR 0xC2, CHR 0xC3, CHR 0xC4, CHR 0xC5, CHR 0xC6, CHR 0xC7,
        CHR 0xC8, CHR 0xC9, CHR 0xCA, CHR 0xCB, CHR 0xCC, CHR 0xCD, CHR 0xCE, CHR 0xCF,
        CHR 0xD0, CHR 0xD1, CHR 0xD2, CHR 0xD3, CHR 0xD4, CHR 0xD5, CHR 0xD6,
        CHR 0xD8, CHR 0xD9, CHR 0xDA, CHR 0xDB, CHR 0xDC, CHR 0xDD, CHR 0xDE]"

definition small_letters :: string where
  "small_letters =
     ''abcdefghijklmnopqrstuvwxyz''
     @ [CHR 0xE0, CHR 0xE1, CHR 0xE2, CHR 0xE3, CHR 0xE4, CHR 0xE5, CHR 0xE6, CHR 0xE7,
        CHR 0xE8, CHR 0xE9, CHR 0xEA, CHR 0xEB, CHR 0xEC, CHR 0xED, CHR 0xEE, CHR 0xEF,
        CHR 0xF0, CHR 0xF1, CHR 0xF2, CHR 0xF3, CHR 0xF4, CHR 0xF5, CHR 0xF6,
        CHR 0xF8, CHR 0xF9, CHR 0xFA, CHR 0xFB, CHR 0xFC, CHR 0xFD, CHR 0xFE]"

definition lower :: "char \<Rightarrow> char" where
  "lower c =
     (case map_of (zip capital_letters small_letters) c of
        None \<Rightarrow> c
      | Some l \<Rightarrow> l)"

fun ilike :: "(char \<Rightarrow> char) \<Rightarrow> string \<Rightarrow> string \<Rightarrow> bool" where
  "ilike lc [] s = (s = [])"
| "ilike lc (p # ps) [] = (p = CHR ''%'' \<and> ilike lc ps [])"
| "ilike lc (p # ps) (c # cs) =
     (if p = CHR ''%'' then ilike lc ps (c # cs) \<or> ilike lc (p # ps) cs
      else if p = CHR ''_'' then ilike lc ps cs
      else if p = CHR 0x5C then
        (case ps of [] \<Rightarrow> False | q # qs \<Rightarrow> lc c = lc q \<and> ilike lc qs cs)
      else lc c = lc p \<and> ilike lc ps cs)"

section \<open>Schemas\<close>

text \<open>
  \<^verbatim>\<open>WorkOutApi/contrib/schemas.py\<close>: every schema derives from \<^verbatim>\<open>BaseSchemas\<close>, whose
  \<^verbatim>\<open>Config\<close> forbids extra fields and allows reading from attributes. \<^verbatim>\<open>OutMixin\<close> declares
  \<^verbatim>\<open>id\<close> and \<^verbatim>\<open>creat_at\<close>.
\<close>

datatype ftype = TStr | TFloat | TInt | TUuid | TDatetime | TModel "(string \<times> ftype) list"

record Config =
  extra :: string
  from_attributes :: bool

definition BaseSchemas_Config :: Config where
  "BaseSchemas_Config = \<lparr>extra = ''forbid'', from_attributes = True\<rparr>"

definition OutMixin_fields :: "(string \<times> ftype) list" where
  "OutMixin_fields = [(''id'', TUuid), (''creat_at'', TDatetime)]"

text \<open>
  Modelled from the spec: \<^verbatim>\<open>WorkOutApi/atleta/schemas.py\<close> (\<^verbatim>\<open>AtletaIn\<close>, \<^verbatim>\<open>AtletaOut\<close>,
  \<^verbatim>\<open>AtletaUpdate\<close>) is missing. The input of a create carries name, cpf, weight, height,
  sex, and a category and a training centre given by name; the output adds the fields of
  \<^verbatim>\<open>OutMixin\<close>; a partial update may carry any field except the two of \<^verbatim>\<open>OutMixin\<close>. The
  fields the controller names keep the controller's names (\<^verbatim>\<open>nome\<close>, \<^verbatim>\<open>cpf\<close>,
  \<^verbatim>\<open>categoria\<close>, \<^verbatim>\<open>centro_treinamento\<close>); the others have the spec's.
\<close>

definition Atleta_fields :: "(string \<times> ftype) list" where
  "Atleta_fields =
     [(''nome'', TStr), (''cpf'', TStr), (''weight'', TFloat), (''height'', TFloat),
      (''sex'', TStr), (''categoria'', TModel [(''nome'', TStr)]),
      (''centro_treinamento'', TModel [(''nome'', TStr)])]"

definition AtletaIn_fields :: "(string \<times> ftype) list" where
  "AtletaIn_fields = Atleta_fields"

definition AtletaOut_fields :: "(string \<times> ftype) list" where
  "AtletaOut_fields = OutMixin_fields @ Atleta_fields"

definition AtletaUpdate_fields :: "(string \<times> ftype) list" where
  "AtletaUpdate_fields = Atleta_fields"

text \<open>
  Validation of a value against a declared type, as pydantic does it, without coercion. The
  flag says that the input is read from attributes (\<^verbatim>\<open>model_validate\<close> of an ORM row: only
  the declared fields are read); otherwise the input is a dictionary, and a key that the
  schema does not declare is an error when the configuration forbids extra fields. The
  result has the declared fields in the declared order.
\<close>

definition extra_forbidden :: "(string \<times> ftype) list \<Rightarrow> obj \<Rightarrow> bool" where
  "extra_forbidden fs kvs =
     (extra BaseSchemas_Config = ''forbid'' \<and> (\<exists>k \<in> set (map fst kvs). k \<notin> set (map fst fs)))"

fun validate_val :: "bool \<Rightarrow> ftype \<Rightarrow> val \<Rightarrow> val option"
  and validate_fields :: "bool \<Rightarrow> (string \<times> ftype) list \<Rightarrow> obj \<Rightarrow> obj option"
where
  "validate_val fa TStr (VStr s) = Some (VStr s)"
| "validate_val fa TFloat (VFloat x) = Some (VFloat x)"
| "validate_val fa TInt (VInt i) = Some (VInt i)"
| "validate_val fa TUuid (VUuid u) = Some (VUuid u)"
| "validate_val fa TDatetime (VDatetime t) = Some (VDatetime t)"
| "validate_val fa (TModel fs) (VObj kvs) =
     (if \<not> fa \<and> extra_forbidden fs kvs then None
      else map_option VObj (validate_fields fa fs kvs))"
| "validate_val fa _ _ = None"
| "validate_fields fa [] kvs = Some []"
| "validate_fields fa ((k, T) # fs) kvs =
     (case getattr kvs k of
        None \<Rightarrow> None
      | Some v \<Rightarrow>
         (case validate_val fa T v of
            None \<Rightarrow> None
          | Some v' \<Rightarrow>
             (case validate_fields fa fs kvs of
                None \<Rightarrow> None
              | Some r \<Rightarrow> Some ((k, v') # r))))"

text \<open>
  A schema whose fields are all optional: a field that the body does not set is left out of
  the instance, which is therefore its own \<^verbatim>\<open>model_dump(exclude_unset=True)\<close>.
\<close>

fun validate_unset :: "(string \<times> ftype) list \<Rightarrow> obj \<Rightarrow> obj option" where
  "validate_unset [] kvs = Some []"
| "validate_unset ((k, T) # fs) kvs =
     (case getattr kvs k of
        None \<Rightarrow> validate_unset fs kvs
      | Some v \<Rightarrow>
         (case validate_val False T v of
            None \<Rightarrow> None
          | Some v' \<Rightarrow>
             (case validate_unset fs kvs of
                None \<Rightarrow> None
              | Some r \<Rightarrow> Some ((k, v') # r))))"

section \<open>Exceptions and the store\<close>

datatype exn =
    HTTPException nat string
  | RequestValidationError
  | ValidationError
  | TypeError
  | AttributeError string
  | IntegrityError string
  | InvalidRequestError

text \<open>
  Modelled from the spec: the models (\<^verbatim>\<open>AtletaModel\<close>, \<^verbatim>\<open>CategoriaModel\<close>,
  \<^verbatim>\<open>CentroTreinamentoModel\<close>) and the session are missing. The store holds three tables of
  rows, in the order in which a select with no ordering gives them, and the case mapping of
  its locale; a reference row has a numeric key \<^verbatim>\<open>pk_id\<close> and a \<^verbatim>\<open>nome\<close>; the store refuses
  a second athlete with a cpf that another athlete has.
\<close>

record db =
  atletas :: "obj list"
  categorias :: "obj list"
  centros_treinamento :: "obj list"
  lc_lower :: "char \<Rightarrow> char"

definition filter_by :: "string \<Rightarrow> val \<Rightarrow> obj list \<Rightarrow> obj list" where
  "filter_by k v rows = filter (\<lambda>r. getattr r k = Some v) rows"

fun first :: "'a list \<Rightarrow> 'a option" where
  "first [] = None"
| "first (x # xs) = Some x"

definition unique_violation :: string where
  "unique_violation = ''duplicate key value violates unique constraint''"

definition cpf_taken :: "obj list \<Rightarrow> obj \<Rightarrow> bool" where
  "cpf_taken rows r =
     (case getattr r ''cpf'' of
        None \<Rightarrow> False
      | Some c \<Rightarrow> (\<exists>r' \<in> set rows. getattr r' ''cpf'' = Some c))"

text \<open>
  Modelled from the spec: the session is missing. \<^verbatim>\<open>db_session.add(row)\<close> followed by
  \<^verbatim>\<open>commit()\<close> inserts the row after the stored ones, unless another athlete has its cpf;
  then the commit raises the integrity error, whose text has the words that \<^verbatim>\<open>post\<close> looks
  for.
\<close>

definition add_commit :: "db \<Rightarrow> obj \<Rightarrow> exn + db" where
  "add_commit d r =
     (if cpf_taken (atletas d) r then Inl (IntegrityError unique_violation)
      else Inr (d\<lparr>atletas := atletas d @ [r]\<rparr>))"

text \<open>
  Modelled from the spec: \<^verbatim>\<open>AtletaModel\<close> is missing. \<^verbatim>\<open>categoria\<close> and
  \<^verbatim>\<open>centro_treinamento\<close> are its two relationships, the other attributes that the schemas
  name are its columns. \<^verbatim>\<open>setattr\<close> of a relationship takes a mapped object only: for the
  dictionary that \<^verbatim>\<open>model_dump\<close> gives for a nested field it raises AttributeError, the
  dictionary having no \<^verbatim>\<open>_sa_instance_state\<close>. \<^verbatim>\<open>setattr\<close> of another attribute writes it on
  the object.
\<close>

definition AtletaModel_relationships :: "string set" where
  "AtletaModel_relationships = {''categoria'', ''centro_treinamento''}"

definition AtletaModel_setattr :: "obj \<Rightarrow> string \<Rightarrow> val \<Rightarrow> exn + obj" where
  "AtletaModel_setattr a key value =
     (if key \<in> AtletaModel_relationships then Inl (AttributeError ''_sa_instance_state'')
      else Inr (setattr a key value))"

text \<open>
  Modelled from the spec: the session is missing. \<^verbatim>\<open>commit()\<close> after attributes of a loaded
  row were set. When no attribute has a new value the session writes nothing. Otherwise
  the store refuses the write when it changes the cpf to one that another athlete has; a
  write that it accepts leaves the other rows as they are and puts the new version of the
  row after them, where a select with no ordering finds it. The commit gives back the store
  and the place of the row in it, and \<^verbatim>\<open>refresh\<close> loads the row of that place again.
\<close>

definition update_commit ::
  "db \<Rightarrow> obj list \<Rightarrow> obj \<Rightarrow> obj \<Rightarrow> obj list \<Rightarrow> exn + db \<times> nat" where
  "update_commit d earlier old r later =
     (if r = old then Inr (d, length earlier)
      else if getattr r ''cpf'' \<noteq> getattr old ''cpf'' \<and> cpf_taken (earlier @ later) r
      then Inl (IntegrityError unique_violation)
      else Inr (d\<lparr>atletas := earlier @ later @ [r]\<rparr>, length earlier + length later))"

definition refresh :: "db \<Rightarrow> nat \<Rightarrow> exn + obj" where
  "refresh d place =
     (if place < length (atletas d) then Inr (atletas d ! place) else Inl InvalidRequestError)"

text \<open>
  Modelled from the spec: \<^verbatim>\<open>AtletaModel\<close> is missing. The attributes of a loaded athlete
  are the columns of its row and the two relationships, each giving the reference row that
  the foreign key names.
\<close>

definition relationship :: "obj list \<Rightarrow> obj \<Rightarrow> string \<Rightarrow> string \<Rightarrow> obj" where
  "relationship table row name fk =
     (case getattr row fk of
        None \<Rightarrow> []
      | Some k \<Rightarrow>
         (case first (filter_by ''pk_id'' k table) of
            None \<Rightarrow> []
          | Some r \<Rightarrow> [(name, VObj r)]))"

definition AtletaModel_attributes :: "db \<Rightarrow> obj \<Rightarrow> obj" where
  "AtletaModel_attributes d row =
     filter (\<lambda>(k, v). k \<notin> AtletaModel_relationships) row
       @ relationship (categorias d) row ''categoria'' ''categoria_id''
       @ relationship (centros_treinamento d) row ''centro_treinamento''
           ''centro_treinamento_id''"

text \<open>\<^verbatim>\<open>AtletaOut.model_validate(atleta)\<close>.\<close>

definition AtletaOut_model_validate :: "db \<Rightarrow> obj \<Rightarrow> exn + obj" where
  "AtletaOut_model_validate d row =
     (case validate_fields (from_attributes BaseSchemas_Config) AtletaOut_fields
             (AtletaModel_attributes d row) of
        None \<Rightarrow> Inl ValidationError
      | Some out \<Rightarrow> Inr out)"

text \<open>
  \<^verbatim>\<open>AtletaOut(**kwargs)\<close>: Python refuses a keyword given twice, then pydantic validates the
  keywords as a dictionary.
\<close>

definition AtletaOut_init :: "obj \<Rightarrow> exn + obj" where
  "AtletaOut_init kwargs =
     (if \<not> distinct (map fst kwargs) then Inl TypeError
      else (case validate_val False (TModel AtletaOut_fields) (VObj kwargs) of
              Some (VObj out) \<Rightarrow> Inr out
            | _ \<Rightarrow> Inl ValidationError))"

definition model_dump_exclude :: "string set \<Rightarrow> obj \<Rightarrow> obj" where
  "model_dump_exclude ex ob = filter (\<lambda>(k, v). k \<notin> ex) ob"

fun traverse :: "('a \<Rightarrow> exn + 'b) \<Rightarrow> 'a list \<Rightarrow> exn + 'b list" where
  "traverse f [] = Inr []"
| "traverse f (x # xs) =
     (case f x of
        Inl e \<Rightarrow> Inl e
      | Inr y \<Rightarrow> (case traverse f xs of Inl e \<Rightarrow> Inl e | Inr ys \<Rightarrow> Inr (y # ys)))"

section \<open>The handlers of the controller\<close>

definition categoria_not_found :: "string \<Rightarrow> string" where
  "categoria_not_found n =
     ''Categoria '' @ [CHR 0x27] @ n @ [CHR 0x27] @ '' n'' @ [CHR 0xE3] @ ''o encontrada''"

definition centro_not_found :: "string \<Rightarrow> string" where
  "centro_not_found n =
     ''Centro de Treinamento '' @ [CHR 0x27] @ n @ [CHR 0x27] @ '' n'' @ [CHR 0xE3]
       @ ''o encontrado''"

definition cpf_exists :: "string \<Rightarrow> string" where
  "cpf_exists c = ''J'' @ [CHR 0xE1] @ '' existe um atleta cadastrado com o CPF: '' @ c"

definition atleta_not_found :: "string \<Rightarrow> string" where
  "atleta_not_found i = ''Atleta n'' @ [CHR 0xE3] @ ''o encontrado com o ID: '' @ i"

text \<open>
  \<^verbatim>\<open>post\<close>. The identifier of \<^verbatim>\<open>uuid4()\<close> and the time of \<^verbatim>\<open>datetime.now()\<close> are
  arguments. A handler returns its result, or the exception it raises, and the store it
  leaves; a raise leaves the store as it was.
\<close>

definition post :: "db \<Rightarrow> string \<Rightarrow> nat \<Rightarrow> obj \<Rightarrow> (exn + obj) \<times> db" where
  "post d uid now atleta_in =
     (case nested_nome atleta_in ''categoria'' of
        None \<Rightarrow> (Inl (AttributeError ''categoria''), d)
      | Some categoria_name \<Rightarrow>
     (case nested_nome atleta_in ''centro_treinamento'' of
        None \<Rightarrow> (Inl (AttributeError ''centro_treinamento''), d)
      | Some centro_treinamento_name \<Rightarrow>
     (case first (filter_by ''nome'' (VStr categoria_name) (categorias d)) of
        None \<Rightarrow> (Inl (HTTPException 400 (categoria_not_found categoria_name)), d)
      | Some categoria \<Rightarrow>
     (case first (filter_by ''nome'' (VStr centro_treinamento_name) (centros_treinamento d)) of
        None \<Rightarrow> (Inl (HTTPException 400 (centro_not_found centro_treinamento_name)), d)
      | Some centro_treinamento \<Rightarrow>
     (case AtletaOut_init ([(''id'', VUuid uid), (''creat_at'', VDatetime now)] @ atleta_in) of
        Inl e \<Rightarrow> (Inl e, d)
      | Inr atleta_out \<Rightarrow>
     (case getattr categoria ''pk_id'' of
        None \<Rightarrow> (Inl (AttributeError ''pk_id''), d)
      | Some categoria_pk \<Rightarrow>
     (case getattr centro_treinamento ''pk_id'' of
        None \<Rightarrow> (Inl (AttributeError ''pk_id''), d)
      | Some centro_pk \<Rightarrow>
     (let atleta_model = model_dump_exclude {''categoria'', ''centro_treinamento''} atleta_out;
          atleta_model = setattr atleta_model ''categoria_id'' categoria_pk;
          atleta_model = setattr atleta_model ''centro_treinamento_id'' centro_pk
      in case add_commit d atleta_model of
           Inr d' \<Rightarrow> (Inr atleta_out, d')
         | Inl (IntegrityError e) \<Rightarrow>
             (if contains unique_violation e
              then (case getattr atleta_in ''cpf'' of
                      Some (VStr c) \<Rightarrow> (Inl (HTTPException 303 (cpf_exists c)), d)
                    | _ \<Rightarrow> (Inl (AttributeError ''cpf''), d))
              else (Inl (HTTPException 500 ''Ocorreu um erro ao inserir o dado no banco''), d))
         | Inl e \<Rightarrow> (Inl e, d)))))))))"

text \<open>\<^verbatim>\<open>query_all_atletas\<close>: \<^verbatim>\<open>if nome:\<close> and \<^verbatim>\<open>if cpf:\<close> are Python's truth tests.\<close>

definition truthy :: "string option \<Rightarrow> bool" where
  "truthy s = (case s of None \<Rightarrow> False | Some t \<Rightarrow> t \<noteq> [])"

definition nome_ilike :: "(char \<Rightarrow> char) \<Rightarrow> string \<Rightarrow> obj \<Rightarrow> bool" where
  "nome_ilike lc pat a =
     (case getattr a ''nome'' of Some (VStr s) \<Rightarrow> ilike lc pat s | _ \<Rightarrow> False)"

definition query_all_atletas ::
  "db \<Rightarrow> string option \<Rightarrow> string option \<Rightarrow> (exn + obj list) \<times> db" where
  "query_all_atletas d nome cpf =
     (let query = atletas d;
          query = (if truthy nome
                   then filter (nome_ilike (lc_lower d) (''%'' @ the nome @ ''%'')) query
                   else query);
          query = (if truthy cpf
                   then filter (\<lambda>a. getattr a ''cpf'' = Some (VStr (the cpf))) query else query)
      in (traverse (AtletaOut_model_validate d) query, d))"

definition query_atleta_by_id :: "db \<Rightarrow> string \<Rightarrow> (exn + obj) \<times> db" where
  "query_atleta_by_id d uid =
     (case first (filter_by ''id'' (VUuid uid) (atletas d)) of
        None \<Rightarrow> (Inl (HTTPException 404 (atleta_not_found uid)), d)
      | Some atleta \<Rightarrow> (AtletaOut_model_validate d atleta, d))"

text \<open>
  \<^verbatim>\<open>update_atleta\<close> and \<^verbatim>\<open>delete_atleta\<close> change the row that \<^verbatim>\<open>first()\<close> gave them:
  \<open>List.extract\<close> gives the first row with the identifier together with the rows before
  and after it. The argument \<open>atleta_up\<close> is the instance of \<^verbatim>\<open>AtletaUpdate\<close>, that is the
  fields that the request set. The loop over its items stops at the first \<^verbatim>\<open>setattr\<close> that
  raises, before anything is committed.
\<close>

definition has_id :: "string \<Rightarrow> obj \<Rightarrow> bool" where
  "has_id uid a = (getattr a ''id'' = Some (VUuid uid))"

fun setattr_items :: "obj \<Rightarrow> (string \<times> val) list \<Rightarrow> exn + obj" where
  "setattr_items a [] = Inr a"
| "setattr_items a ((key, value) # items) =
     (case AtletaModel_setattr a key value of
        Inl e \<Rightarrow> Inl e
      | Inr a' \<Rightarrow> setattr_items a' items)"

definition update_atleta :: "db \<Rightarrow> string \<Rightarrow> obj \<Rightarrow> (exn + obj) \<times> db" where
  "update_atleta d uid atleta_up =
     (case List.extract (has_id uid) (atletas d) of
        None \<Rightarrow> (Inl (HTTPException 404 (atleta_not_found uid)), d)
      | Some (earlier, atleta, later) \<Rightarrow>
          (let atleta_update = atleta_up
           in case setattr_items atleta atleta_update of
                Inl e \<Rightarrow> (Inl e, d)
              | Inr atleta' \<Rightarrow>
                  (case update_commit d earlier atleta atleta' later of
                     Inl e \<Rightarrow> (Inl e, d)
                   | Inr (d', place) \<Rightarrow>
                       (case refresh d' place of
                          Inl e \<Rightarrow> (Inl e, d')
                        | Inr refreshed \<Rightarrow> (AtletaOut_model_validate d' refreshed, d')))))"

definition delete_atleta :: "db \<Rightarrow> string \<Rightarrow> (exn + unit) \<times> db" where
  "delete_atleta d uid =
     (case List.extract (has_id uid) (atletas d) of
        None \<Rightarrow> (Inl (HTTPException 404 (atleta_not_found uid)), d)
      | Some (earlier, atleta, later) \<Rightarrow> (Inr (), d\<lparr>atletas := earlier @ later\<rparr>))"

section \<open>Request bodies\<close>

text \<open>
  The framework validates the body against the schema of the handler's parameter before it
  calls the handler, and answers 422 itself when the validation fails.
\<close>

definition AtletaIn_validate :: "obj \<Rightarrow> exn + obj" where
  "AtletaIn_validate body =
     (case validate_val False (TModel AtletaIn_fields) (VObj body) of
        Some (VObj a) \<Rightarrow> Inr a
      | _ \<Rightarrow> Inl RequestValidationError)"

definition AtletaUpdate_validate :: "obj \<Rightarrow> exn + obj" where
  "AtletaUpdate_validate body =
     (if extra_forbidden AtletaUpdate_fields body then Inl RequestValidationError
      else (case validate_unset AtletaUpdate_fields body of
              None \<Rightarrow> Inl RequestValidationError
            | Some a \<Rightarrow> Inr a))"

definition post_request :: "db \<Rightarrow> string \<Rightarrow> nat \<Rightarrow> obj \<Rightarrow> (exn + obj) \<times> db" where
  "post_request d uid now body =
     (case AtletaIn_validate body of
        Inl e \<Rightarrow> (Inl e, d)
      | Inr atleta_in \<Rightarrow> post d uid now atleta_in)"

definition patch_request :: "db \<Rightarrow> string \<Rightarrow> obj \<Rightarrow> (exn + obj) \<times> db" where
  "patch_request d uid body =
     (case AtletaUpdate_validate body of
        Inl e \<Rightarrow> (Inl e, d)
      | Inr atleta_up \<Rightarrow> update_atleta d uid atleta_up)"

section \<open>Notions that the statements use\<close>

text \<open>
  The row that a successful create inserts, and what a response record is: an instance of
  \<^verbatim>\<open>AtletaOut\<close>, with the fields of \<^verbatim>\<open>OutMixin\<close> and of the input.
\<close>

definition created_row ::
  "string \<Rightarrow> nat \<Rightarrow> string \<Rightarrow> string \<Rightarrow> real \<Rightarrow> real \<Rightarrow> string \<Rightarrow> val \<Rightarrow> val \<Rightarrow> obj" where
  "created_row uid now n c w h s cpk tpk =
     [(''id'', VUuid uid), (''creat_at'', VDatetime now), (''nome'', VStr n),
      (''cpf'', VStr c), (''weight'', VFloat w), (''height'', VFloat h), (''sex'', VStr s),
      (''categoria_id'', cpk), (''centro_treinamento_id'', tpk)]"

definition AtletaOut_response :: "obj \<Rightarrow> bool" where
  "AtletaOut_response out =
     (map fst out =
        [''id'', ''creat_at'', ''nome'', ''cpf'', ''weight'', ''height'', ''sex'',
         ''categoria'', ''centro_treinamento'']
      \<and> validate_val False (TModel AtletaOut_fields) (VObj out) = Some (VObj out))"

text \<open>
  Modelled from the spec: a reference row has an internal numeric key and a name; the
  columns are \<^verbatim>\<open>pk_id\<close> and \<^verbatim>\<open>nome\<close>, as the controller reads them.
\<close>

definition Reference_columns :: "(string \<times> ftype) list" where
  "Reference_columns = [(''pk_id'', TInt), (''nome'', TStr)]"

definition reference_rows_ok :: "db \<Rightarrow> bool" where
  "reference_rows_ok d =
     (\<forall>r \<in> set (categorias d @ centros_treinamento d).
        validate_fields True Reference_columns r \<noteq> None)"

text \<open>
  The filters in the words of the spec: the name filter matches an athlete whose name
  contains it as a substring, both sides taken through the case mapping of the store; the
  cpf filter matches an athlete whose cpf is equal to it; an absent or empty filter matches
  every athlete. A filter is free of pattern characters when it has no percent sign,
  underscore or backslash.
\<close>

definition name_contains :: "(char \<Rightarrow> char) \<Rightarrow> string \<Rightarrow> string \<Rightarrow> bool" where
  "name_contains lc needle name = contains (map lc needle) (map lc name)"

definition matches_filters ::
  "(char \<Rightarrow> char) \<Rightarrow> string option \<Rightarrow> string option \<Rightarrow> obj \<Rightarrow> bool" where
  "matches_filters lc nome cpf a =
     ((case nome of
         None \<Rightarrow> True
       | Some n \<Rightarrow>
           n = []
           \<or> (case getattr a ''nome'' of Some (VStr s) \<Rightarrow> name_contains lc n s | _ \<Rightarrow> False))
      \<and> (case cpf of
           None \<Rightarrow> True
         | Some c \<Rightarrow> c = [] \<or> getattr a ''cpf'' = Some (VStr c)))"

definition like_free :: "string \<Rightarrow> bool" where
  "like_free s = (\<forall>c \<in> set s. c \<noteq> CHR ''%'' \<and> c \<noteq> CHR ''_'' \<and> c \<noteq> CHR 0x5C)"

section \<open>Example data\<close>

text \<open>
  A store with one category and one training centre, an input that names both, and the
  response and the store that creating it gives.
\<close>

definition db_ex :: db where
  "db_ex =
     \<lparr>atletas = [],
      categorias = [[(''pk_id'', VInt 1), (''nome'', VStr ''Scale'')]],
      centros_treinamento = [[(''pk_id'', VInt 7), (''nome'', VStr ''CT King'')]],
      lc_lower = lower\<rparr>"

definition ana :: obj where
  "ana =
     [(''nome'', VStr ''Ana''), (''cpf'', VStr ''123''), (''weight'', VFloat 75),
      (''height'', VFloat 2), (''sex'', VStr ''F''),
      (''categoria'', VObj [(''nome'', VStr ''Scale'')]),
      (''centro_treinamento'', VObj [(''nome'', VStr ''CT King'')])]"

definition ana_out :: obj where
  "ana_out = [(''id'', VUuid ''u1''), (''creat_at'', VDatetime 5)] @ ana"

definition ana_row :: obj where
  "ana_row =
     [(''id'', VUuid ''u1''), (''creat_at'', VDatetime 5), (''nome'', VStr ''Ana''),
      (''cpf'', VStr ''123''), (''weight'', VFloat 75), (''height'', VFloat 2),
      (''sex'', VStr ''F''), (''categoria_id'', VInt 1), (''centro_treinamento_id'', VInt 7)]"

definition db_ana :: db where
  "db_ana = db_ex\<lparr>atletas := [ana_row]\<rparr>"

text \<open>An input whose category is not in the store, and a body with a field too many.\<close>

definition joe :: obj where
  "joe =
     [(''nome'', VStr ''Joe''), (''cpf'', VStr ''123''), (''weight'', VFloat 75),
      (''height'', VFloat 2), (''sex'', VStr ''M''),
      (''categoria'', VObj [(''nome'', VStr ''Elite'')]),
      (''centro_treinamento'', VObj [(''nome'', VStr ''CT King'')])]"

definition ana_extra :: obj where
  "ana_extra = ana @ [(''idade'', VInt 30)]"

text \<open>A second athlete, and the store with both.\<close>

definition bia :: obj where
  "bia =
     [(''nome'', VStr ''Bia''), (''cpf'', VStr ''456''), (''weight'', VFloat 60),
      (''height'', VFloat 2), (''sex'', VStr ''F''),
      (''categoria'', VObj [(''nome'', VStr ''Scale'')]),
      (''centro_treinamento'', VObj [(''nome'', VStr ''CT King'')])]"

definition bia_out :: obj where
  "bia_out = [(''id'', VUuid ''u2''), (''creat_at'', VDatetime 6)] @ bia"

definition bia_row :: obj where
  "bia_row = created_row ''u2'' 6 ''Bia'' ''456'' 60 2 ''F'' (VInt 1) (VInt 7)"

definition db_two :: db where
  "db_two = db_ex\<lparr>atletas := [ana_row, bia_row]\<rparr>"

text \<open>A second input with the cpf of the first, whose category and training centre exist.\<close>

definition eva :: obj where
  "eva =
     [(''nome'', VStr ''Eva''), (''cpf'', VStr ''123''), (''weight'', VFloat 58),
      (''height'', VFloat 2), (''sex'', VStr ''F''),
      (''categoria'', VObj [(''nome'', VStr ''Scale'')]),
      (''centro_treinamento'', VObj [(''nome'', VStr ''CT King'')])]"

text \<open>
  Three partial updates: of the weight alone, of the cpf to that of the first athlete, and
  of the category to a name that is not in the store.
\<close>

definition up_weight :: obj where
  "up_weight = [(''weight'', VFloat 80.5)]"

definition up_cpf :: obj where
  "up_cpf = [(''cpf'', VStr ''123'')]"

definition up_categoria :: obj where
  "up_categoria = [(''categoria'', VObj [(''nome'', VStr ''Nope'')])]"

text \<open>
  A third athlete, whose name begins with a capital E with acute accent, and the store with
  the three.
\<close>

definition eve_row :: obj where
  "eve_row = created_row ''u3'' 7 (CHR 0xC9 # ''VE'') ''789'' 58 2 ''F'' (VInt 1) (VInt 7)"

definition eve_out :: obj where
  "eve_out =
     [(''id'', VUuid ''u3''), (''creat_at'', VDatetime 7), (''nome'', VStr (CHR 0xC9 # ''VE'')),
      (''cpf'', VStr ''789''), (''weight'', VFloat 58), (''height'', VFloat 2),
      (''sex'', VStr ''F''), (''categoria'', VObj [(''nome'', VStr ''Scale'')]),
      (''centro_treinamento'', VObj [(''nome'', VStr ''CT King'')])]"

definition db_three :: db where
  "db_three = db_ex\<lparr>atletas := [ana_row, bia_row, eve_row]\<rparr>"

section \<open>Evaluation of the example\<close>

lemmas schema_defs = AtletaIn_fields_def AtletaOut_fields_def AtletaUpdate_fields_def
  OutMixin_fields_def Atleta_fields_def extra_forbidden_def BaseSchemas_Config_def

lemmas ex_defs = db_ex_def ana_def ana_out_def ana_row_def db_ana_def
  bia_def bia_out_def bia_row_def db_two_def created_row_def

lemmas lower_defs = lower_def capital_letters_def small_letters_def

lemmas names_defs = eve_row_def eve_out_def db_three_def

lemma post_ana: "post db_ex ''u1'' 5 ana = (Inr ana_out, db_ana)"
  by (simp add: post_def ex_defs nested_nome_def getattr_def filter_by_def AtletaOut_init_def
      schema_defs model_dump_exclude_def add_commit_def cpf_taken_def)

lemma post_bia: "post db_ana ''u2'' 6 bia = (Inr bia_out, db_two)"
  by (simp add: post_def ex_defs nested_nome_def getattr_def filter_by_def AtletaOut_init_def
      schema_defs model_dump_exclude_def add_commit_def cpf_taken_def)

lemma get_ana: "query_atleta_by_id db_ana ''u1'' = (Inr ana_out, db_ana)"
  by (simp add: query_atleta_by_id_def ex_defs filter_by_def getattr_def
      AtletaOut_model_validate_def AtletaModel_attributes_def AtletaModel_relationships_def
      relationship_def schema_defs)

lemma list_ana:
  "query_all_atletas db_ana (Some ''AN'') (Some ''123'') = (Inr [ana_out], db_ana)"
  by (simp add: query_all_atletas_def truthy_def nome_ilike_def lower_defs ex_defs filter_by_def
      getattr_def AtletaOut_model_validate_def AtletaModel_attributes_def
      AtletaModel_relationships_def relationship_def
      schema_defs)

lemma reference_rows_ok_ex: "reference_rows_ok db_ex"
  by (simp add: reference_rows_ok_def Reference_columns_def db_ex_def getattr_def)

section \<open>Lookups\<close>

lemma first_filter_None: "first (filter P xs) = None \<longleftrightarrow> (\<forall>x \<in> set xs. \<not> P x)"
  by (induction xs) auto

lemma first_filter_by_Some:
  "first (filter_by k v rows) = Some r \<Longrightarrow> r \<in> set rows \<and> getattr r k = Some v"
  unfolding filter_by_def by (induction rows) (auto split: if_splits)

lemma first_filter_by_exists:
  "r \<in> set rows \<Longrightarrow> getattr r k = Some v \<Longrightarrow> \<exists>r'. first (filter_by k v rows) = Some r'"
  unfolding filter_by_def by (induction rows) auto

lemma first_filter_by_fresh:
  "\<forall>a \<in> set rows. getattr a k \<noteq> Some v \<Longrightarrow> getattr r k = Some v \<Longrightarrow>
   first (filter_by k v (rows @ [r])) = Some r"
  unfolding filter_by_def by (induction rows) auto

lemma traverse_Inr:
  "traverse f xs = Inr ys \<Longrightarrow> list_all2 (\<lambda>x y. f x = Inr y) xs ys"
proof (induction xs arbitrary: ys)
  case Nil
  then show ?case by simp
next
  case (Cons x xs)
  then show ?case
    by (auto split: sum.splits)
qed

lemma traverse_all_Inr:
  "list_all2 (\<lambda>x y. f x = Inr y) xs ys \<Longrightarrow> traverse f xs = Inr ys"
  by (induction xs ys rule: list_all2_induct) auto

section \<open>What validation accepts\<close>

lemma validate_TStr: "validate_val fa TStr v = Some v' \<longleftrightarrow> (\<exists>s. v = VStr s \<and> v' = VStr s)"
  by (cases v) auto
lemma validate_TFloat: "validate_val fa TFloat v = Some v' \<longleftrightarrow> (\<exists>x. v = VFloat x \<and> v' = VFloat x)"
  by (cases v) auto
lemma validate_TUuid: "validate_val fa TUuid v = Some v' \<longleftrightarrow> (\<exists>x. v = VUuid x \<and> v' = VUuid x)"
  by (cases v) auto
lemma validate_TDatetime: "validate_val fa TDatetime v = Some v' \<longleftrightarrow> (\<exists>x. v = VDatetime x \<and> v' = VDatetime x)"
  by (cases v) auto
lemma validate_named:
  "validate_val fa (TModel [(''nome'', TStr)]) v = Some v' \<longleftrightarrow>
     (\<exists>sub s. v = VObj sub \<and> \<not> (\<not> fa \<and> extra_forbidden [(''nome'', TStr)] sub)
        \<and> getattr sub ''nome'' = Some (VStr s) \<and> v' = VObj [(''nome'', VStr s)])"
  by (cases v) (auto simp: validate_TStr split: option.splits)

lemmas validate_inv = validate_TStr validate_TFloat validate_TUuid validate_TDatetime validate_named

lemma Atleta_shape:
  assumes "validate_fields fa Atleta_fields kvs = Some out"
  shows "\<exists>n c w h s cat cn ct tn.
           out = [(''nome'', VStr n), (''cpf'', VStr c), (''weight'', VFloat w),
                  (''height'', VFloat h), (''sex'', VStr s),
                  (''categoria'', VObj [(''nome'', VStr cn)]),
                  (''centro_treinamento'', VObj [(''nome'', VStr tn)])]
         \<and> getattr kvs ''nome'' = Some (VStr n) \<and> getattr kvs ''cpf'' = Some (VStr c)
         \<and> getattr kvs ''weight'' = Some (VFloat w) \<and> getattr kvs ''height'' = Some (VFloat h)
         \<and> getattr kvs ''sex'' = Some (VStr s)
         \<and> getattr kvs ''categoria'' = Some (VObj cat) \<and> getattr cat ''nome'' = Some (VStr cn)
         \<and> getattr kvs ''centro_treinamento'' = Some (VObj ct)
         \<and> getattr ct ''nome'' = Some (VStr tn)"
  using assms unfolding Atleta_fields_def
  by (auto simp: validate_inv split: option.splits)

lemma AtletaOut_shape:
  assumes "validate_fields fa AtletaOut_fields kvs = Some out"
  shows "\<exists>i t rest. out = (''id'', VUuid i) # (''creat_at'', VDatetime t) # rest
         \<and> validate_fields fa Atleta_fields kvs = Some rest
         \<and> getattr kvs ''id'' = Some (VUuid i) \<and> getattr kvs ''creat_at'' = Some (VDatetime t)"
  using assms unfolding AtletaOut_fields_def OutMixin_fields_def
  by (auto simp: validate_inv split: option.splits)

lemma validate_TInt: "validate_val fa TInt v = Some v' \<longleftrightarrow> (\<exists>x. v = VInt x \<and> v' = VInt x)"
  by (cases v) auto

lemma reference_row:
  assumes "reference_rows_ok d" "r \<in> set (categorias d) \<or> r \<in> set (centros_treinamento d)"
  shows "\<exists>i s. getattr r ''pk_id'' = Some (VInt i) \<and> getattr r ''nome'' = Some (VStr s)"
proof -
  from assms have "validate_fields True Reference_columns r \<noteq> None"
    by (auto simp: reference_rows_ok_def)
  then show ?thesis
    by (auto simp: Reference_columns_def validate_TStr validate_TInt split: option.splits)
qed


lemma relationship_ok:
  assumes "reference_rows_ok d" "table = categorias d \<or> table = centros_treinamento d"
    and "first (filter_by ''nome'' v table) = Some r" "getattr r ''pk_id'' = Some pk"
    and "getattr row fk = Some pk"
  shows "\<exists>r' s. relationship table row name fk = [(name, VObj r')]
          \<and> getattr r' ''nome'' = Some (VStr s)"
proof -
  from assms(3) have "r \<in> set table" by (blast dest: first_filter_by_Some)
  with assms(4) obtain r' where r': "first (filter_by ''pk_id'' pk table) = Some r'"
    by (blast dest: first_filter_by_exists)
  then have "r' \<in> set table" by (blast dest: first_filter_by_Some)
  with assms(1,2) obtain s where "getattr r' ''nome'' = Some (VStr s)"
    by (blast dest: reference_row)
  with r' assms(5) show ?thesis by (simp add: relationship_def)
qed

section \<open>A successful create\<close>

lemma AtletaOut_init_Inr:
  "AtletaOut_init kwargs = Inr out \<Longrightarrow> validate_fields False AtletaOut_fields kwargs = Some out"
  by (auto simp: AtletaOut_init_def split: if_splits option.splits val.splits)

lemma post_Inr:
  assumes "post d uid now a = (Inr out, d')"
  shows "\<exists>n c w h s cn tn categoria centro cpk tpk.
      out = [(''id'', VUuid uid), (''creat_at'', VDatetime now), (''nome'', VStr n),
             (''cpf'', VStr c), (''weight'', VFloat w), (''height'', VFloat h),
             (''sex'', VStr s), (''categoria'', VObj [(''nome'', VStr cn)]),
             (''centro_treinamento'', VObj [(''nome'', VStr tn)])]
    \<and> d' = d\<lparr>atletas := atletas d @ [created_row uid now n c w h s cpk tpk]\<rparr>
    \<and> getattr a ''cpf'' = Some (VStr c)
    \<and> (\<forall>r \<in> set (atletas d). getattr r ''cpf'' \<noteq> Some (VStr c))
    \<and> first (filter_by ''nome'' (VStr cn) (categorias d)) = Some categoria
    \<and> getattr categoria ''pk_id'' = Some cpk
    \<and> first (filter_by ''nome'' (VStr tn) (centros_treinamento d)) = Some centro
    \<and> getattr centro ''pk_id'' = Some tpk"
proof -
  from assms obtain cn0 tn0 categoria centro cpk tpk where
    names: "nested_nome a ''categoria'' = Some cn0" "nested_nome a ''centro_treinamento'' = Some tn0"
    and cat: "first (filter_by ''nome'' (VStr cn0) (categorias d)) = Some categoria"
      "getattr categoria ''pk_id'' = Some cpk"
    and cen: "first (filter_by ''nome'' (VStr tn0) (centros_treinamento d)) = Some centro"
      "getattr centro ''pk_id'' = Some tpk"
    and init: "AtletaOut_init ([(''id'', VUuid uid), (''creat_at'', VDatetime now)] @ a) = Inr out"
    and commit: "add_commit d (setattr (setattr (model_dump_exclude {''categoria'', ''centro_treinamento''} out)
        ''categoria_id'' cpk) ''centro_treinamento_id'' tpk) = Inr d'"
    by (auto simp: post_def Let_def
        split: option.splits sum.splits exn.splits if_splits val.splits)
  from AtletaOut_shape [OF AtletaOut_init_Inr [OF init]] obtain rest where
    out: "out = (''id'', VUuid uid) # (''creat_at'', VDatetime now) # rest"
    and rest: "validate_fields False Atleta_fields ([(''id'', VUuid uid), (''creat_at'', VDatetime now)] @ a) = Some rest"
    by (auto simp: getattr_def)
  from Atleta_shape [OF rest] obtain n c w h s cat cn ct tn where
    shape: "rest = [(''nome'', VStr n), (''cpf'', VStr c), (''weight'', VFloat w),
                  (''height'', VFloat h), (''sex'', VStr s),
                  (''categoria'', VObj [(''nome'', VStr cn)]),
                  (''centro_treinamento'', VObj [(''nome'', VStr tn)])]"
    and cpf: "getattr a ''cpf'' = Some (VStr c)"
    and c1: "getattr a ''categoria'' = Some (VObj cat)" "getattr cat ''nome'' = Some (VStr cn)"
    and c2: "getattr a ''centro_treinamento'' = Some (VObj ct)" "getattr ct ''nome'' = Some (VStr tn)"
    by (auto simp: getattr_def)
  from names c1 c2 have eq: "cn0 = cn" "tn0 = tn"
    by (simp_all add: nested_nome_def)
  have row: "setattr (setattr (model_dump_exclude {''categoria'', ''centro_treinamento''} out)
        ''categoria_id'' cpk) ''centro_treinamento_id'' tpk = created_row uid now n c w h s cpk tpk"
    by (simp add: out shape model_dump_exclude_def created_row_def)
  from commit have "d' = d\<lparr>atletas := atletas d @ [created_row uid now n c w h s cpk tpk]\<rparr>"
    and "\<forall>r \<in> set (atletas d). getattr r ''cpf'' \<noteq> Some (VStr c)"
    unfolding row by (auto simp: add_commit_def cpf_taken_def created_row_def getattr_def split: if_splits)
  with out shape cpf cat cen eq show ?thesis by blast
qed

lemma AtletaOut_fields_instance:
  assumes "validate_fields fa AtletaOut_fields kvs = Some out"
  shows "AtletaOut_response out"
proof -
  from AtletaOut_shape [OF assms] obtain i t rest where
    out: "out = (''id'', VUuid i) # (''creat_at'', VDatetime t) # rest"
    and rest: "validate_fields fa Atleta_fields kvs = Some rest"
    by blast
  from Atleta_shape [OF rest] obtain n c w h s cn tn where
    "rest = [(''nome'', VStr n), (''cpf'', VStr c), (''weight'', VFloat w),
                  (''height'', VFloat h), (''sex'', VStr s),
                  (''categoria'', VObj [(''nome'', VStr cn)]),
                  (''centro_treinamento'', VObj [(''nome'', VStr tn)])]"
    by blast
  with out show ?thesis
    by (simp add: AtletaOut_response_def schema_defs getattr_def)
qed

lemma model_validate_instance:
  assumes "AtletaOut_model_validate d row = Inr out"
  shows "AtletaOut_response out"
  using assms
  by (auto simp: AtletaOut_model_validate_def split: option.splits dest: AtletaOut_fields_instance)

lemma post_instance:
  assumes "post d uid now a = (Inr out, d')"
  shows "AtletaOut_response out"
proof -
  from post_Inr [OF assms] obtain n c w h s cn tn where
     "out = [(''id'', VUuid uid), (''creat_at'', VDatetime now), (''nome'', VStr n),
             (''cpf'', VStr c), (''weight'', VFloat w), (''height'', VFloat h),
             (''sex'', VStr s), (''categoria'', VObj [(''nome'', VStr cn)]),
             (''centro_treinamento'', VObj [(''nome'', VStr tn)])]"
    by blast
  then show ?thesis by (simp add: AtletaOut_response_def schema_defs getattr_def)
qed

lemma update_Inr:
  assumes "update_atleta d uid up = (Inr out, d')"
  shows "\<exists>row. AtletaOut_model_validate d' row = Inr out"
  using assms
  by (auto simp: update_atleta_def Let_def split: option.splits sum.splits prod.splits)

section \<open>Listing with empty filters\<close>

text \<open>
  C9. An empty string as the name filter or as the cpf filter is skipped, as an absent
  filter is: the listing is the same with either, whatever the other filter is, and with
  both filters empty every stored athlete is listed.
\<close>

theorem empty_filter_is_absent:
  "query_all_atletas d (Some []) c = query_all_atletas d None c
   \<and> query_all_atletas d n (Some []) = query_all_atletas d n None
   \<and> query_all_atletas d (Some []) (Some []) =
       (traverse (AtletaOut_model_validate d) (atletas d), d)"
  by (simp add: query_all_atletas_def truthy_def)

theorem empty_filter_is_absent_witness:
  "query_all_atletas db_ana (Some []) (Some ''123'') = query_all_atletas db_ana None (Some ''123'')
   \<and> query_all_atletas db_ana (Some ''an'') (Some []) = query_all_atletas db_ana (Some ''an'') None
   \<and> query_all_atletas db_ana (Some []) (Some []) =
       (traverse (AtletaOut_model_validate db_ana) (atletas db_ana), db_ana)"
  using empty_filter_is_absent [of db_ana "Some ''123''" "Some ''an''"] by simp

section \<open>Unknown identifiers\<close>

text \<open>
  C6. For an identifier that no stored athlete has, reading, updating and deleting each
  raise the HTTP exception 404 whose detail names the identifier, and each leaves the store
  as it was.
\<close>

theorem unknown_id_not_found:
  assumes "\<forall>a \<in> set (atletas d). getattr a ''id'' \<noteq> Some (VUuid uid)"
  shows "query_atleta_by_id d uid =
           (Inl (HTTPException 404
              (''Atleta n'' @ [CHR 0xE3] @ ''o encontrado com o ID: '' @ uid)), d)
       \<and> update_atleta d uid atleta_up =
           (Inl (HTTPException 404
              (''Atleta n'' @ [CHR 0xE3] @ ''o encontrado com o ID: '' @ uid)), d)
       \<and> delete_atleta d uid =
           (Inl (HTTPException 404
              (''Atleta n'' @ [CHR 0xE3] @ ''o encontrado com o ID: '' @ uid)), d)"
proof -
  have none_first: "first (filter_by ''id'' (VUuid uid) (atletas d)) = None"
    using assms by (simp add: first_filter_None filter_by_def)
  have none_extract: "List.extract (has_id uid) (atletas d) = None"
    using assms by (simp add: extract_None_iff has_id_def)
  show ?thesis
    by (simp add: query_atleta_by_id_def update_atleta_def delete_atleta_def
        none_first none_extract atleta_not_found_def)
qed

theorem unknown_id_not_found_witness:
  "atletas db_ana = [ana_row] \<and> getattr ana_row ''id'' = Some (VUuid ''u1'')
   \<and> query_atleta_by_id db_ana ''u2'' =
       (Inl (HTTPException 404 (''Atleta n'' @ [CHR 0xE3] @ ''o encontrado com o ID: u2'')),
        db_ana)
   \<and> update_atleta db_ana ''u2'' [(''weight'', VFloat 80)] =
       (Inl (HTTPException 404 (''Atleta n'' @ [CHR 0xE3] @ ''o encontrado com o ID: u2'')),
        db_ana)
   \<and> delete_atleta db_ana ''u2'' =
       (Inl (HTTPException 404 (''Atleta n'' @ [CHR 0xE3] @ ''o encontrado com o ID: u2'')),
        db_ana)"
proof -
  have h: "\<forall>a \<in> set (atletas db_ana). getattr a ''id'' \<noteq> Some (VUuid ''u2'')"
    by (simp add: ex_defs getattr_def)
  show ?thesis
    using unknown_id_not_found [OF h, of "[(''weight'', VFloat 80)]"]
    by (simp add: ex_defs getattr_def)
qed

section \<open>Creating with an unknown reference\<close>

text \<open>
  C2. A create whose category name is in no row of the category table raises the HTTP
  exception 400 whose detail names the category, whatever the training centre is: the
  category is looked up first. A create whose category is found and whose training centre
  name is in no row of its table raises 400 naming the training centre. In both cases the
  store is left as it was: no row is inserted.
\<close>

theorem create_reference_not_found:
  assumes "nested_nome atleta_in ''categoria'' = Some cn"
      and "nested_nome atleta_in ''centro_treinamento'' = Some tn"
  shows "((\<forall>c \<in> set (categorias d). getattr c ''nome'' \<noteq> Some (VStr cn)) \<longrightarrow>
            post d uid now atleta_in =
              (Inl (HTTPException 400
                 (''Categoria '' @ [CHR 0x27] @ cn @ [CHR 0x27] @ '' n'' @ [CHR 0xE3]
                    @ ''o encontrada'')), d))
       \<and> ((\<exists>c \<in> set (categorias d). getattr c ''nome'' = Some (VStr cn))
           \<and> (\<forall>t \<in> set (centros_treinamento d). getattr t ''nome'' \<noteq> Some (VStr tn)) \<longrightarrow>
            post d uid now atleta_in =
              (Inl (HTTPException 400
                 (''Centro de Treinamento '' @ [CHR 0x27] @ tn @ [CHR 0x27] @ '' n''
                    @ [CHR 0xE3] @ ''o encontrado'')), d))"
proof (intro conjI impI)
  assume "\<forall>c \<in> set (categorias d). getattr c ''nome'' \<noteq> Some (VStr cn)"
  then have "first (filter_by ''nome'' (VStr cn) (categorias d)) = None"
    by (simp add: first_filter_None filter_by_def)
  then show "post d uid now atleta_in =
              (Inl (HTTPException 400
                 (''Categoria '' @ [CHR 0x27] @ cn @ [CHR 0x27] @ '' n'' @ [CHR 0xE3]
                    @ ''o encontrada'')), d)"
    using assms by (simp add: post_def categoria_not_found_def)
next
  assume h: "(\<exists>c \<in> set (categorias d). getattr c ''nome'' = Some (VStr cn))
           \<and> (\<forall>t \<in> set (centros_treinamento d). getattr t ''nome'' \<noteq> Some (VStr tn))"
  then have "first (filter_by ''nome'' (VStr cn) (categorias d)) \<noteq> None"
    by (simp add: first_filter_None filter_by_def)
  then obtain c where c: "first (filter_by ''nome'' (VStr cn) (categorias d)) = Some c"
    by blast
  from h have "first (filter_by ''nome'' (VStr tn) (centros_treinamento d)) = None"
    by (simp add: first_filter_None filter_by_def)
  then show "post d uid now atleta_in =
              (Inl (HTTPException 400
                 (''Centro de Treinamento '' @ [CHR 0x27] @ tn @ [CHR 0x27] @ '' n''
                    @ [CHR 0xE3] @ ''o encontrado'')), d)"
    using assms c by (simp add: post_def centro_not_found_def)
qed

theorem create_reference_not_found_witness:
  "post db_ex ''u2'' 6 joe =
     (Inl (HTTPException 400
        (''Categoria '' @ [CHR 0x27] @ ''Elite'' @ [CHR 0x27] @ '' n'' @ [CHR 0xE3]
           @ ''o encontrada'')), db_ex)"
proof -
  have 1: "nested_nome joe ''categoria'' = Some ''Elite''"
   and 2: "nested_nome joe ''centro_treinamento'' = Some ''CT King''"
    by (simp_all add: joe_def nested_nome_def getattr_def)
  have 3: "\<forall>c \<in> set (categorias db_ex). getattr c ''nome'' \<noteq> Some (VStr ''Elite'')"
    by (simp add: db_ex_def getattr_def)
  show ?thesis
    using create_reference_not_found [OF 1 2, of db_ex "''u2''" 6] 3 by blast
qed

section \<open>Bodies with undeclared fields\<close>

text \<open>
  C10. A body of a create or of a partial update with a field name that the schema of the
  handler's parameter does not declare is refused by the validation: the request ends in a
  validation error, the handler is not run and the store is left as it was.
\<close>

theorem undeclared_field_rejected:
  "((\<exists>k \<in> set (map fst body). k \<notin> set (map fst AtletaIn_fields)) \<longrightarrow>
      post_request d uid now body = (Inl RequestValidationError, d))
   \<and> ((\<exists>k \<in> set (map fst body). k \<notin> set (map fst AtletaUpdate_fields)) \<longrightarrow>
      patch_request d uid body = (Inl RequestValidationError, d))"
  by (auto simp: post_request_def patch_request_def AtletaIn_validate_def
      AtletaUpdate_validate_def extra_forbidden_def BaseSchemas_Config_def)

theorem undeclared_field_rejected_witness:
  "post_request db_ex ''u1'' 5 ana_extra = (Inl RequestValidationError, db_ex)
   \<and> patch_request db_ex ''u1'' ana_extra = (Inl RequestValidationError, db_ex)"
proof -
  have "\<exists>k \<in> set (map fst ana_extra). k \<notin> set (map fst AtletaIn_fields)"
    by (simp add: ana_extra_def ana_def schema_defs)
  moreover have "\<exists>k \<in> set (map fst ana_extra). k \<notin> set (map fst AtletaUpdate_fields)"
    by (simp add: ana_extra_def ana_def schema_defs)
  ultimately show ?thesis
    using undeclared_field_rejected [of ana_extra db_ex "''u1''" 5] by blast
qed

section \<open>The fields of a response\<close>

text \<open>
  C8, as the claim states it, fails: the record that a create returns has no field
  \<^verbatim>\<open>created_at\<close>. \<^verbatim>\<open>OutMixin\<close> declares the creation time as \<^verbatim>\<open>creat_at\<close>, and \<^verbatim>\<open>post\<close>
  passes it under that name.
\<close>

theorem response_has_no_created_at:
  "fst (post db_ex ''u1'' 5 ana) = Inr ana_out
   \<and> getattr ana_out ''created_at'' = None
   \<and> getattr ana_out ''creat_at'' = Some (VDatetime 5)"
  by (simp add: post_ana) (simp add: ex_defs getattr_def)

text \<open>
  C8, amended. Every record that create, get, update or list returns is an instance of
  \<^verbatim>\<open>AtletaOut\<close> with exactly the fields \<^verbatim>\<open>id\<close>, \<^verbatim>\<open>creat_at\<close>, \<^verbatim>\<open>nome\<close>, \<^verbatim>\<open>cpf\<close>,
  \<^verbatim>\<open>weight\<close>, \<^verbatim>\<open>height\<close>, \<^verbatim>\<open>sex\<close> and the nested objects \<^verbatim>\<open>categoria\<close> and
  \<^verbatim>\<open>centro_treinamento\<close>: the creation time is exposed under the name \<^verbatim>\<open>creat_at\<close>.
\<close>

theorem response_fields:
  "(post d uid now atleta_in = (Inr out, d') \<longrightarrow> AtletaOut_response out)
   \<and> (query_atleta_by_id d uid = (Inr out, d') \<longrightarrow> AtletaOut_response out)
   \<and> (update_atleta d uid atleta_up = (Inr out, d') \<longrightarrow> AtletaOut_response out)
   \<and> (query_all_atletas d nome cpf = (Inr outs, d') \<longrightarrow>
        (\<forall>out \<in> set outs. AtletaOut_response out))"
proof -
  have "query_atleta_by_id d uid = (Inr out, d') \<Longrightarrow>
          \<exists>row. AtletaOut_model_validate d row = Inr out"
    by (auto simp: query_atleta_by_id_def split: option.splits)
  then have get: "query_atleta_by_id d uid = (Inr out, d') \<longrightarrow> AtletaOut_response out"
    by (blast dest: model_validate_instance)
  have upd: "update_atleta d uid atleta_up = (Inr out, d') \<longrightarrow> AtletaOut_response out"
    by (blast dest: update_Inr model_validate_instance)
  have lst: "query_all_atletas d nome cpf = (Inr outs, d') \<longrightarrow>
               (\<forall>out \<in> set outs. AtletaOut_response out)"
  proof (intro impI ballI)
    fix o'
    assume q: "query_all_atletas d nome cpf = (Inr outs, d')" and o': "o' \<in> set outs"
    from q obtain rows where "traverse (AtletaOut_model_validate d) rows = Inr outs"
      by (auto simp: query_all_atletas_def Let_def)
    then have "list_all2 (\<lambda>x y. AtletaOut_model_validate d x = Inr y) rows outs"
      by (rule traverse_Inr)
    with o' obtain row where "AtletaOut_model_validate d row = Inr o'"
      by (auto simp: list_all2_conv_all_nth in_set_conv_nth)
    then show "AtletaOut_response o'"
      by (rule model_validate_instance)
  qed
  show ?thesis using post_instance get upd lst by blast
qed

theorem response_fields_witness:
  "post db_ex ''u1'' 5 ana = (Inr ana_out, db_ana)
   \<and> query_atleta_by_id db_ana ''u1'' = (Inr ana_out, db_ana)
   \<and> query_all_atletas db_ana (Some ''AN'') (Some ''123'') = (Inr [ana_out], db_ana)
   \<and> AtletaOut_response ana_out
   \<and> map fst ana_out =
       [''id'', ''creat_at'', ''nome'', ''cpf'', ''weight'', ''height'', ''sex'',
        ''categoria'', ''centro_treinamento'']"
proof -
  have "AtletaOut_response ana_out"
    using response_fields [of db_ex "''u1''" 5 ana ana_out db_ana] post_ana by blast
  then show ?thesis
    using post_ana get_ana list_ana by (simp add: AtletaOut_response_def)
qed

section \<open>Reading an athlete after creating it\<close>

text \<open>
  C7. After a successful create, with the identifier that \<^verbatim>\<open>uuid4()\<close> gave in use by no
  other athlete and with reference rows that have their key and name, reading the athlete
  by the returned identifier in the store that the create left succeeds, and the record
  read has the fields of the record that the create returned, with the same value in every
  field other than the category and the training centre.
\<close>

theorem get_after_create:
  assumes created: "post d uid now atleta_in = (Inr out, d')"
      and fresh: "\<forall>a \<in> set (atletas d). getattr a ''id'' \<noteq> Some (VUuid uid)"
      and refs: "reference_rows_ok d"
  shows "\<exists>out'. query_atleta_by_id d' uid = (Inr out', d')
           \<and> map fst out' = map fst out
           \<and> (\<forall>k. k \<noteq> ''categoria'' \<and> k \<noteq> ''centro_treinamento'' \<longrightarrow>
                 getattr out' k = getattr out k)"
proof -
  from post_Inr [OF created] obtain n c w h s cn tn categoria centro cpk tpk where
    out: "out = [(''id'', VUuid uid), (''creat_at'', VDatetime now), (''nome'', VStr n),
             (''cpf'', VStr c), (''weight'', VFloat w), (''height'', VFloat h),
             (''sex'', VStr s), (''categoria'', VObj [(''nome'', VStr cn)]),
             (''centro_treinamento'', VObj [(''nome'', VStr tn)])]"
    and d': "d' = d\<lparr>atletas := atletas d @ [created_row uid now n c w h s cpk tpk]\<rparr>"
    and cat: "first (filter_by ''nome'' (VStr cn) (categorias d)) = Some categoria"
      "getattr categoria ''pk_id'' = Some cpk"
    and cen: "first (filter_by ''nome'' (VStr tn) (centros_treinamento d)) = Some centro"
      "getattr centro ''pk_id'' = Some tpk"
    by blast
  let ?row = "created_row uid now n c w h s cpk tpk"
  have found: "first (filter_by ''id'' (VUuid uid) (atletas d')) = Some ?row"
    unfolding d' using fresh
    by (simp add: first_filter_by_fresh created_row_def getattr_def)
  have "getattr ?row ''categoria_id'' = Some cpk"
    by (simp add: created_row_def getattr_def)
  from relationship_ok [OF refs _ cat this, of "''categoria''"]
  obtain r1 s1 where r1:
    "relationship (categorias d) ?row ''categoria'' ''categoria_id'' = [(''categoria'', VObj r1)]"
    "getattr r1 ''nome'' = Some (VStr s1)"
    by blast
  have "getattr ?row ''centro_treinamento_id'' = Some tpk"
    by (simp add: created_row_def getattr_def)
  from relationship_ok [OF refs _ cen this, of "''centro_treinamento''"]
  obtain r2 s2 where r2:
    "relationship (centros_treinamento d) ?row ''centro_treinamento'' ''centro_treinamento_id''
       = [(''centro_treinamento'', VObj r2)]"
    "getattr r2 ''nome'' = Some (VStr s2)"
    by blast
  have "AtletaOut_model_validate d' ?row =
     Inr [(''id'', VUuid uid), (''creat_at'', VDatetime now), (''nome'', VStr n),
             (''cpf'', VStr c), (''weight'', VFloat w), (''height'', VFloat h),
             (''sex'', VStr s), (''categoria'', VObj [(''nome'', VStr s1)]),
             (''centro_treinamento'', VObj [(''nome'', VStr s2)])]"
  proof -
    have cols: "filter (\<lambda>(k, v). k \<notin> AtletaModel_relationships) ?row = ?row"
      by (simp add: created_row_def AtletaModel_relationships_def)
    have attrs: "AtletaModel_attributes d' ?row =
        ?row @ [(''categoria'', VObj r1), (''centro_treinamento'', VObj r2)]"
      using r1(1) r2(1) unfolding d' by (simp add: AtletaModel_attributes_def cols)
    show ?thesis
      unfolding AtletaOut_model_validate_def attrs using r1(2) r2(2)
      by (simp add: created_row_def schema_defs getattr_def)
  qed
  with found show ?thesis
    by (simp add: query_atleta_by_id_def out getattr_def)
qed

theorem get_after_create_witness:
  "post db_ana ''u2'' 6 bia = (Inr bia_out, db_two)
   \<and> atletas db_ana = [ana_row] \<and> getattr ana_row ''id'' = Some (VUuid ''u1'')
   \<and> reference_rows_ok db_ana
   \<and> (\<exists>out'. query_atleta_by_id db_two ''u2'' = (Inr out', db_two)
         \<and> map fst out' = map fst bia_out
         \<and> getattr out' ''cpf'' = getattr bia_out ''cpf''
         \<and> getattr out' ''creat_at'' = getattr bia_out ''creat_at'')"
proof -
  have fresh: "\<forall>a \<in> set (atletas db_ana). getattr a ''id'' \<noteq> Some (VUuid ''u2'')"
    by (simp add: ex_defs getattr_def)
  have refs: "reference_rows_ok db_ana"
    using reference_rows_ok_ex by (simp add: reference_rows_ok_def db_ana_def)
  from get_after_create [OF post_bia fresh refs]
  have "\<exists>out'. query_atleta_by_id db_two ''u2'' = (Inr out', db_two)
         \<and> map fst out' = map fst bia_out
         \<and> getattr out' ''cpf'' = getattr bia_out ''cpf''
         \<and> getattr out' ''creat_at'' = getattr bia_out ''creat_at''"
    by fastforce
  with refs post_bia show ?thesis
    by (simp add: db_ana_def ana_row_def getattr_def)
qed

section \<open>Creating twice with one cpf\<close>

lemma contains_refl: "contains xs xs"
  by (cases xs) simp_all

lemma AtletaIn_instance:
  assumes "AtletaIn_validate a = Inr a"
  shows "\<exists>n c w h s cn tn.
           a = [(''nome'', VStr n), (''cpf'', VStr c), (''weight'', VFloat w),
                (''height'', VFloat h), (''sex'', VStr s),
                (''categoria'', VObj [(''nome'', VStr cn)]),
                (''centro_treinamento'', VObj [(''nome'', VStr tn)])]"
proof -
  from assms have "validate_fields False Atleta_fields a = Some a"
    by (auto simp: AtletaIn_validate_def AtletaIn_fields_def split: option.splits val.splits if_splits)
  from Atleta_shape [OF this] show ?thesis by blast
qed

lemma post_valid:
  assumes a: "a = [(''nome'', VStr n), (''cpf'', VStr c), (''weight'', VFloat w),
                (''height'', VFloat h), (''sex'', VStr s),
                (''categoria'', VObj [(''nome'', VStr cn)]),
                (''centro_treinamento'', VObj [(''nome'', VStr tn)])]"
    and cat: "first (filter_by ''nome'' (VStr cn) (categorias d)) = Some categoria"
      "getattr categoria ''pk_id'' = Some cpk"
    and cen: "first (filter_by ''nome'' (VStr tn) (centros_treinamento d)) = Some centro"
      "getattr centro ''pk_id'' = Some tpk"
  shows "post d uid now a =
     (if \<exists>r \<in> set (atletas d). getattr r ''cpf'' = Some (VStr c)
      then (Inl (HTTPException 303 (cpf_exists c)), d)
      else (Inr ([(''id'', VUuid uid), (''creat_at'', VDatetime now)] @ a),
            d\<lparr>atletas := atletas d @ [created_row uid now n c w h s cpk tpk]\<rparr>))"
proof -
  have names: "nested_nome a ''categoria'' = Some cn" "nested_nome a ''centro_treinamento'' = Some tn"
    by (simp_all add: a nested_nome_def getattr_def)
  have init: "AtletaOut_init ([(''id'', VUuid uid), (''creat_at'', VDatetime now)] @ a)
      = Inr ([(''id'', VUuid uid), (''creat_at'', VDatetime now)] @ a)"
    by (simp add: a AtletaOut_init_def schema_defs getattr_def)
  have row: "setattr (setattr (model_dump_exclude {''categoria'', ''centro_treinamento''}
        ([(''id'', VUuid uid), (''creat_at'', VDatetime now)] @ a))
        ''categoria_id'' cpk) ''centro_treinamento_id'' tpk = created_row uid now n c w h s cpk tpk"
    by (simp add: a model_dump_exclude_def created_row_def)
  have taken: "cpf_taken (atletas d) (created_row uid now n c w h s cpk tpk)
     \<longleftrightarrow> (\<exists>r \<in> set (atletas d). getattr r ''cpf'' = Some (VStr c))"
    by (simp add: cpf_taken_def created_row_def getattr_def)
  have cpf: "getattr a ''cpf'' = Some (VStr c)"
    by (simp add: a getattr_def)
  show ?thesis
    using row taken init
    by (simp add: post_def names cat cen add_commit_def contains_refl cpf
        del: contains.simps)
qed

text \<open>
  C1, as the claim states it, fails: a second create with the cpf of the first and a
  category that is not in the store raises 400 for the category, not 303 for the cpf, since
  the references are looked up before the insert.
\<close>

theorem duplicate_cpf_unknown_category:
  "post db_ex ''u1'' 5 ana = (Inr ana_out, db_ana)
   \<and> getattr joe ''cpf'' = getattr ana ''cpf''
   \<and> post db_ana ''u2'' 6 joe =
       (Inl (HTTPException 400
          (''Categoria '' @ [CHR 0x27] @ ''Elite'' @ [CHR 0x27] @ '' n'' @ [CHR 0xE3]
             @ ''o encontrada'')), db_ana)"
proof -
  have "post db_ana ''u2'' 6 joe =
       (Inl (HTTPException 400
          (''Categoria '' @ [CHR 0x27] @ ''Elite'' @ [CHR 0x27] @ '' n'' @ [CHR 0xE3]
             @ ''o encontrada'')), db_ana)"
    by (simp add: post_def ex_defs joe_def nested_nome_def getattr_def filter_by_def
        categoria_not_found_def)
  then show ?thesis
    using post_ana by (simp add: joe_def ana_def getattr_def)
qed

text \<open>
  C1, amended. When a create has succeeded, a second create with the same cpf, with a
  valid input and reference rows that have their key and name, fails and leaves the store
  as the first create left it: with 400 naming the category when the category of the second
  input is not in the store, else with 400 naming the training centre when that is not in
  the store, else with 303 naming the cpf. Afterwards exactly one stored athlete has that
  cpf.
\<close>

theorem duplicate_cpf:
  assumes first: "post d u1 t1 a1 = (Inr out1, d1)"
      and same: "getattr a2 ''cpf'' = getattr a1 ''cpf''"
      and inst: "AtletaIn_validate a2 = Inr a2"
      and refs: "reference_rows_ok d"
  shows "\<exists>c cn tn. getattr a1 ''cpf'' = Some (VStr c)
     \<and> nested_nome a2 ''categoria'' = Some cn
     \<and> nested_nome a2 ''centro_treinamento'' = Some tn
     \<and> post d1 u2 t2 a2 =
        (Inl (if \<forall>r \<in> set (categorias d). getattr r ''nome'' \<noteq> Some (VStr cn)
              then HTTPException 400
                (''Categoria '' @ [CHR 0x27] @ cn @ [CHR 0x27] @ '' n'' @ [CHR 0xE3]
                    @ ''o encontrada'')
              else if \<forall>r \<in> set (centros_treinamento d). getattr r ''nome'' \<noteq> Some (VStr tn)
              then HTTPException 400
                (''Centro de Treinamento '' @ [CHR 0x27] @ tn @ [CHR 0x27] @ '' n''
                    @ [CHR 0xE3] @ ''o encontrado'')
              else HTTPException 303
                (''J'' @ [CHR 0xE1] @ '' existe um atleta cadastrado com o CPF: '' @ c)), d1)
     \<and> length (filter (\<lambda>r. getattr r ''cpf'' = Some (VStr c)) (atletas d1)) = 1"
proof -
  from post_Inr [OF first] obtain n c w h s cpk tpk where
    d1: "d1 = d\<lparr>atletas := atletas d @ [created_row u1 t1 n c w h s cpk tpk]\<rparr>"
    and cpf1: "getattr a1 ''cpf'' = Some (VStr c)"
    and free: "\<forall>r \<in> set (atletas d). getattr r ''cpf'' \<noteq> Some (VStr c)"
    by blast
  from AtletaIn_instance [OF inst] same cpf1 obtain n2 w2 h2 s2 cn tn where
    a2: "a2 = [(''nome'', VStr n2), (''cpf'', VStr c), (''weight'', VFloat w2),
                (''height'', VFloat h2), (''sex'', VStr s2),
                (''categoria'', VObj [(''nome'', VStr cn)]),
                (''centro_treinamento'', VObj [(''nome'', VStr tn)])]"
    by (auto simp: getattr_def)
  have names: "nested_nome a2 ''categoria'' = Some cn" "nested_nome a2 ''centro_treinamento'' = Some tn"
    by (simp_all add: a2 nested_nome_def getattr_def)
  have tabs: "categorias d1 = categorias d" "centros_treinamento d1 = centros_treinamento d"
    by (simp_all add: d1)
  have taken: "\<exists>r \<in> set (atletas d1). getattr r ''cpf'' = Some (VStr c)"
    by (simp add: d1 created_row_def getattr_def)
  have count: "length (filter (\<lambda>r. getattr r ''cpf'' = Some (VStr c)) (atletas d1)) = 1"
    using free by (simp add: d1 created_row_def getattr_def filter_empty_conv [THEN iffD2])
  have second: "post d1 u2 t2 a2 =
        (Inl (if \<forall>r \<in> set (categorias d). getattr r ''nome'' \<noteq> Some (VStr cn)
              then HTTPException 400
                (''Categoria '' @ [CHR 0x27] @ cn @ [CHR 0x27] @ '' n'' @ [CHR 0xE3]
                    @ ''o encontrada'')
              else if \<forall>r \<in> set (centros_treinamento d). getattr r ''nome'' \<noteq> Some (VStr tn)
              then HTTPException 400
                (''Centro de Treinamento '' @ [CHR 0x27] @ tn @ [CHR 0x27] @ '' n''
                    @ [CHR 0xE3] @ ''o encontrado'')
              else HTTPException 303
                (''J'' @ [CHR 0xE1] @ '' existe um atleta cadastrado com o CPF: '' @ c)), d1)"
  proof (cases "\<forall>r \<in> set (categorias d). getattr r ''nome'' \<noteq> Some (VStr cn)")
    case True
    then have "first (filter_by ''nome'' (VStr cn) (categorias d1)) = None"
      by (simp add: tabs first_filter_None filter_by_def)
    with True show ?thesis
      by (simp add: post_def names categoria_not_found_def)
  next
    case False
    then obtain categoria where cat: "first (filter_by ''nome'' (VStr cn) (categorias d1)) = Some categoria"
      unfolding tabs by (blast dest: first_filter_by_exists)
    then have "categoria \<in> set (categorias d)"
      unfolding tabs by (blast dest: first_filter_by_Some)
    with refs obtain cpk where cpk: "getattr categoria ''pk_id'' = Some cpk"
      by (blast dest: reference_row)
    show ?thesis
    proof (cases "\<forall>r \<in> set (centros_treinamento d). getattr r ''nome'' \<noteq> Some (VStr tn)")
      case True
      then have "first (filter_by ''nome'' (VStr tn) (centros_treinamento d1)) = None"
        by (simp add: tabs first_filter_None filter_by_def)
      with True False cat show ?thesis
        by (simp add: post_def names centro_not_found_def)
    next
      case nocen: False
      then obtain centro where cen: "first (filter_by ''nome'' (VStr tn) (centros_treinamento d1)) = Some centro"
        unfolding tabs by (blast dest: first_filter_by_exists)
      then have "centro \<in> set (centros_treinamento d)"
        unfolding tabs by (blast dest: first_filter_by_Some)
      with refs obtain tpk where tpk: "getattr centro ''pk_id'' = Some tpk"
        by (blast dest: reference_row)
      from post_valid [OF a2 cat cpk cen tpk] taken False nocen show ?thesis
        by (simp add: cpf_exists_def)
    qed
  qed
  from cpf1 names second count show ?thesis by blast
qed
theorem duplicate_cpf_witness:
  "post db_ex ''u1'' 5 ana = (Inr ana_out, db_ana)
   \<and> getattr eva ''cpf'' = getattr ana ''cpf''
   \<and> AtletaIn_validate eva = Inr eva
   \<and> reference_rows_ok db_ex
   \<and> post db_ana ''u2'' 6 eva =
       (Inl (HTTPException 303
          (''J'' @ [CHR 0xE1] @ '' existe um atleta cadastrado com o CPF: 123'')), db_ana)
   \<and> length (filter (\<lambda>r. getattr r ''cpf'' = Some (VStr ''123'')) (atletas db_ana)) = 1"
proof -
  have same: "getattr eva ''cpf'' = getattr ana ''cpf''"
    by (simp add: eva_def ana_def getattr_def)
  have inst: "AtletaIn_validate eva = Inr eva"
    by (simp add: AtletaIn_validate_def eva_def schema_defs getattr_def)
  from duplicate_cpf [OF post_ana same inst reference_rows_ok_ex, of "''u2''" 6]
  have "post db_ana ''u2'' 6 eva =
       (Inl (HTTPException 303
          (''J'' @ [CHR 0xE1] @ '' existe um atleta cadastrado com o CPF: 123'')), db_ana)
   \<and> length (filter (\<lambda>r. getattr r ''cpf'' = Some (VStr ''123'')) (atletas db_ana)) = 1"
    by (auto simp: eva_def ana_def db_ex_def nested_nome_def getattr_def)
  with same inst post_ana reference_rows_ok_ex show ?thesis by simp
qed

section \<open>Partial updates\<close>

lemma getattr_setattr:
  "getattr (setattr a k v) k' = (if k' = k then Some v else getattr a k')"
  by (induction a) (auto simp: getattr_def)

lemma getattr_fold_setattr:
  "getattr (fold (\<lambda>(key, value) a. setattr a key value) up a) k =
     (case map_of (rev up) k of Some v \<Rightarrow> Some v | None \<Rightarrow> getattr a k)"
proof (induction up arbitrary: a)
  case Nil
  then show ?case by simp
next
  case (Cons kv up)
  obtain k0 v0 where kv: "kv = (k0, v0)" by (cases kv)
  show ?case
    by (simp add: Cons kv getattr_setattr map_add_def split: option.splits)
qed

lemma map_of_rev_distinct:
  "distinct (map fst xs) \<Longrightarrow> map_of (rev xs) = map_of xs"
proof (induction xs)
  case Nil
  then show ?case by simp
next
  case (Cons x xs)
  then have "fst x \<notin> dom (map_of xs)"
    by (simp add: dom_map_of_conv_image_fst)
  then have "map_of xs (fst x) = None" by blast
  with Cons show ?case
    by (cases x) (auto simp: map_add_def fun_eq_iff split: option.splits)
qed

lemma getattr_None_iff: "getattr a k = None \<longleftrightarrow> k \<notin> set (map fst a)"
  by (simp add: getattr_def map_of_eq_None_iff)

lemma applied_fields:
  assumes "distinct (map fst up)"
  shows "getattr (fold (\<lambda>(key, value) a. setattr a key value) up a) k =
     (case getattr up k of Some v \<Rightarrow> Some v | None \<Rightarrow> getattr a k)"
  unfolding getattr_fold_setattr using assms by (simp add: map_of_rev_distinct getattr_def)

text \<open>The loop of \<^verbatim>\<open>setattr\<close>: it writes every item when none is a relationship, and raises
  at the first item that is one.\<close>

lemma setattr_items_columns:
  "\<forall>k \<in> set (map fst up). k \<notin> AtletaModel_relationships \<Longrightarrow>
   setattr_items a up = Inr (fold (\<lambda>(key, value) a. setattr a key value) up a)"
proof (induction up arbitrary: a)
  case Nil
  then show ?case by simp
next
  case (Cons kv up)
  obtain k0 v0 where kv: "kv = (k0, v0)" by (cases kv)
  from Cons.prems have "k0 \<notin> AtletaModel_relationships"
    and rest: "\<forall>k \<in> set (map fst up). k \<notin> AtletaModel_relationships"
    by (simp_all add: kv)
  then show ?case
    by (simp add: kv AtletaModel_setattr_def Cons.IH [OF rest])
qed

lemma setattr_items_relationship:
  "\<exists>k \<in> set (map fst up). k \<in> AtletaModel_relationships \<Longrightarrow>
   setattr_items a up = Inl (AttributeError ''_sa_instance_state'')"
proof (induction up arbitrary: a)
  case Nil
  then show ?case by simp
next
  case (Cons kv up)
  obtain k0 v0 where kv: "kv = (k0, v0)" by (cases kv)
  show ?case
  proof (cases "k0 \<in> AtletaModel_relationships")
    case True
    then show ?thesis by (simp add: kv AtletaModel_setattr_def)
  next
    case False
    with Cons.prems have "\<exists>k \<in> set (map fst up). k \<in> AtletaModel_relationships"
      by (auto simp: kv)
    from Cons.IH [OF this] False show ?thesis
      by (simp add: kv AtletaModel_setattr_def)
  qed
qed

lemma setattr_items_cases:
  "setattr_items a up = Inl (AttributeError ''_sa_instance_state'')
   \<or> (\<exists>a'. setattr_items a up = Inr a')"
  using setattr_items_columns [of up a] setattr_items_relationship [of up a] by blast

lemma validate_unset_Cons:
  assumes "validate_unset ((k, T) # fs) kvs = Some out"
  shows "validate_unset fs kvs = Some out
       \<or> (\<exists>v r. out = (k, v) # r \<and> validate_unset fs kvs = Some r)"
  using assms by (auto split: option.splits)

lemma validate_unset_keys:
  "validate_unset fs kvs = Some out \<Longrightarrow> set (map fst out) \<subseteq> set (map fst fs)"
proof (induction fs arbitrary: out)
  case Nil
  then show ?case by simp
next
  case (Cons f fs)
  obtain k T where f: "f = (k, T)" by (cases f)
  from Cons.prems consider "validate_unset fs kvs = Some out"
    | v r where "out = (k, v) # r" "validate_unset fs kvs = Some r"
    unfolding f by (blast dest: validate_unset_Cons)
  then show ?case
  proof cases
    case 1
    from Cons.IH [OF 1] show ?thesis by auto
  next
    case 2
    from Cons.IH [OF 2(2)] show ?thesis by (auto simp: 2(1) f)
  qed
qed

lemma validate_unset_distinct:
  "validate_unset fs kvs = Some out \<Longrightarrow> distinct (map fst fs) \<Longrightarrow> distinct (map fst out)"
proof (induction fs arbitrary: out)
  case Nil
  then show ?case by simp
next
  case (Cons f fs)
  obtain k T where f: "f = (k, T)" by (cases f)
  from Cons.prems(2) have dist: "distinct (map fst fs)" and new: "k \<notin> set (map fst fs)"
    by (simp_all add: f)
  from Cons.prems(1) consider "validate_unset fs kvs = Some out"
    | v r where "out = (k, v) # r" "validate_unset fs kvs = Some r"
    unfolding f by (blast dest: validate_unset_Cons)
  then show ?case
  proof cases
    case 1
    from Cons.IH [OF 1 dist] show ?thesis .
  next
    case 2
    from validate_unset_keys [OF 2(2)] new have "k \<notin> set (map fst r)" by blast
    with Cons.IH [OF 2(2) dist] show ?thesis by (simp add: 2(1))
  qed
qed

lemma AtletaUpdate_instance:
  assumes "AtletaUpdate_validate up = Inr up"
  shows "distinct (map fst up)"
    and "set (map fst up) \<subseteq>
           {''nome'', ''cpf'', ''weight'', ''height'', ''sex'', ''categoria'',
            ''centro_treinamento''}"
proof -
  from assms have v: "validate_unset Atleta_fields up = Some up"
    by (auto simp: AtletaUpdate_validate_def AtletaUpdate_fields_def
        split: if_splits option.splits)
  have "distinct (map fst Atleta_fields)"
    by (simp add: Atleta_fields_def)
  with v show "distinct (map fst up)"
    by (rule validate_unset_distinct)
  from validate_unset_keys [OF v]
  show "set (map fst up) \<subseteq>
          {''nome'', ''cpf'', ''weight'', ''height'', ''sex'', ''categoria'',
           ''centro_treinamento''}"
    by (simp add: Atleta_fields_def)
qed

text \<open>The handler on an athlete that is in the store.\<close>

lemma refresh_after_commit:
  assumes "atletas d = earlier @ old # later"
      and "update_commit d earlier old r later = Inr (d', place)"
  shows "refresh d' place = Inr r"
    and "\<exists>rows. d' = d\<lparr>atletas := rows\<rparr> \<and> mset rows = mset (earlier @ r # later)"
proof -
  show "refresh d' place = Inr r"
    using assms by (auto simp: update_commit_def refresh_def nth_append split: if_splits)
  show "\<exists>rows. d' = d\<lparr>atletas := rows\<rparr> \<and> mset rows = mset (earlier @ r # later)"
  proof (cases "r = old")
    case True
    with assms have "d' = d\<lparr>atletas := earlier @ r # later\<rparr>"
      by (simp add: update_commit_def)
    then show ?thesis by blast
  next
    case False
    with assms have "d' = d\<lparr>atletas := earlier @ later @ [r]\<rparr>"
      by (auto simp: update_commit_def split: if_splits)
    moreover have "mset (earlier @ later @ [r]) = mset (earlier @ r # later)" by simp
    ultimately show ?thesis by blast
  qed
qed

lemma update_existing:
  assumes "atletas d = earlier @ atleta # later"
      and "getattr atleta ''id'' = Some (VUuid uid)"
      and "\<forall>a \<in> set earlier. getattr a ''id'' \<noteq> Some (VUuid uid)"
  shows "update_atleta d uid up =
     (case setattr_items atleta up of
        Inl e \<Rightarrow> (Inl e, d)
      | Inr atleta' \<Rightarrow>
          (case update_commit d earlier atleta atleta' later of
             Inl e \<Rightarrow> (Inl e, d)
           | Inr (d', place) \<Rightarrow> (AtletaOut_model_validate d' atleta', d')))"
proof -
  from assms have ex: "List.extract (has_id uid) (atletas d) = Some (earlier, atleta, later)"
    by (simp add: extract_Some_iff has_id_def)
  show ?thesis
  proof (cases "setattr_items atleta up")
    case (Inl e)
    then show ?thesis by (simp add: update_atleta_def ex)
  next
    case (Inr atleta')
    show ?thesis
    proof (cases "update_commit d earlier atleta atleta' later")
      case (Inl e)
      with Inr show ?thesis by (simp add: update_atleta_def ex)
    next
      case r: (Inr res)
      obtain d' place where res: "res = (d', place)" by (cases res)
      from refresh_after_commit(1) [OF assms(1) r [unfolded res]]
      show ?thesis
        using Inr r by (simp add: update_atleta_def ex res)
    qed
  qed
qed

lemma update_cases:
  "(\<exists>msg. fst (update_atleta d uid up) = Inl (HTTPException 404 msg))
   \<or> fst (update_atleta d uid up) = Inl (AttributeError ''_sa_instance_state'')
   \<or> fst (update_atleta d uid up) = Inl (IntegrityError unique_violation)
   \<or> fst (update_atleta d uid up) = Inl InvalidRequestError
   \<or> fst (update_atleta d uid up) = Inl ValidationError
   \<or> (\<exists>out. fst (update_atleta d uid up) = Inr out)"
proof (cases "List.extract (has_id uid) (atletas d)")
  case None
  then show ?thesis by (simp add: update_atleta_def)
next
  case (Some found)
  obtain earlier atleta later where found: "found = (earlier, atleta, later)"
    by (cases found)
  from setattr_items_cases [of atleta up] show ?thesis
  proof
    assume "setattr_items atleta up = Inl (AttributeError ''_sa_instance_state'')"
    then show ?thesis by (simp add: update_atleta_def Some found)
  next
    assume "\<exists>a'. setattr_items atleta up = Inr a'"
    then obtain a' where a': "setattr_items atleta up = Inr a'" by blast
    show ?thesis
      by (auto simp: update_atleta_def Some found a' update_commit_def refresh_def
          AtletaOut_model_validate_def split: option.splits)
  qed
qed

lemmas up_defs = up_weight_def up_cpf_def up_categoria_def

lemma up_instances:
  "AtletaUpdate_validate up_weight = Inr up_weight"
  "AtletaUpdate_validate up_cpf = Inr up_cpf"
  "AtletaUpdate_validate up_categoria = Inr up_categoria"
  by (simp_all add: AtletaUpdate_validate_def up_defs schema_defs getattr_def)

text \<open>
  A partial update that carries a relationship raises at the \<^verbatim>\<open>setattr\<close> of it and leaves
  the store as it was.
\<close>

lemma update_relationship_field_raises:
  assumes "atletas d = earlier @ atleta # later"
      and "getattr atleta ''id'' = Some (VUuid uid)"
      and "\<forall>a \<in> set earlier. getattr a ''id'' \<noteq> Some (VUuid uid)"
      and "getattr up ''categoria'' \<noteq> None \<or> getattr up ''centro_treinamento'' \<noteq> None"
  shows "update_atleta d uid up = (Inl (AttributeError ''_sa_instance_state''), d)"
proof -
  from assms(4) have "''categoria'' \<in> set (map fst up) \<or> ''centro_treinamento'' \<in> set (map fst up)"
    by (simp add: getattr_None_iff)
  then have "\<exists>k \<in> set (map fst up). k \<in> AtletaModel_relationships"
    unfolding AtletaModel_relationships_def by blast
  then have "setattr_items atleta up = Inl (AttributeError ''_sa_instance_state'')"
    by (rule setattr_items_relationship)
  then show ?thesis
    by (simp add: update_existing [OF assms(1-3)])
qed

lemma update_ana_categoria:
  "update_atleta db_ana ''u1'' up_categoria = (Inl (AttributeError ''_sa_instance_state''), db_ana)"
proof -
  have "atletas db_ana = [] @ ana_row # []" by (simp add: db_ana_def)
  moreover have "getattr ana_row ''id'' = Some (VUuid ''u1'')"
    by (simp add: ana_row_def getattr_def)
  moreover have "getattr up_categoria ''categoria'' \<noteq> None"
    by (simp add: up_defs getattr_def)
  ultimately show ?thesis
    using update_relationship_field_raises [of db_ana "[]" ana_row "[]" "''u1''" up_categoria]
    by simp
qed

lemma update_ana_weight:
  "update_atleta db_two ''u1'' up_weight =
     (Inr [(''id'', VUuid ''u1''), (''creat_at'', VDatetime 5), (''nome'', VStr ''Ana''),
           (''cpf'', VStr ''123''), (''weight'', VFloat 80.5), (''height'', VFloat 2),
           (''sex'', VStr ''F''), (''categoria'', VObj [(''nome'', VStr ''Scale'')]),
           (''centro_treinamento'', VObj [(''nome'', VStr ''CT King'')])],
      db_two\<lparr>atletas :=
        [bia_row,
         [(''id'', VUuid ''u1''), (''creat_at'', VDatetime 5), (''nome'', VStr ''Ana''),
          (''cpf'', VStr ''123''), (''weight'', VFloat 80.5), (''height'', VFloat 2),
          (''sex'', VStr ''F''), (''categoria_id'', VInt 1),
          (''centro_treinamento_id'', VInt 7)]]\<rparr>)"
  by (simp add: update_atleta_def extract_Cons_code extract_Nil_code has_id_def ex_defs up_defs
      getattr_def AtletaModel_setattr_def AtletaModel_relationships_def update_commit_def
      cpf_taken_def refresh_def AtletaOut_model_validate_def AtletaModel_attributes_def
      relationship_def filter_by_def schema_defs)

text \<open>
  C4, as the claim states it, fails: a partial update that sets the cpf of the second
  athlete to the cpf of the first is refused by the store at the commit, which the handler
  does not catch, and the field that the request carries is not changed.
\<close>

theorem partial_update_refused:
  "atletas db_two = [ana_row, bia_row]
   \<and> getattr bia_row ''id'' = Some (VUuid ''u2'')
   \<and> getattr bia_row ''cpf'' = Some (VStr ''456'')
   \<and> AtletaUpdate_validate up_cpf = Inr up_cpf
   \<and> update_atleta db_two ''u2'' up_cpf = (Inl (IntegrityError unique_violation), db_two)"
proof -
  have "update_atleta db_two ''u2'' up_cpf = (Inl (IntegrityError unique_violation), db_two)"
    by (simp add: update_atleta_def extract_Cons_code extract_Nil_code has_id_def ex_defs up_defs
        getattr_def AtletaModel_setattr_def AtletaModel_relationships_def update_commit_def
        cpf_taken_def)
  then show ?thesis
    using up_instances by (simp add: ex_defs getattr_def)
qed

text \<open>
  C4, amended. For an athlete that is in the store and a partial update that carries
  neither the category nor the training centre and does not change the cpf to one that
  another athlete has, the stored row of the athlete afterwards has, for every attribute,
  the value of the request where the request carries the field and the value it had where
  the request omits it; the rows of the other athletes are as they were; the identifier and
  the creation time keep their values. A partial update of this kind that changes the cpf
  to one that another athlete has raises the integrity error of the store and changes
  nothing.
\<close>

theorem partial_update_applies:
  assumes rows: "atletas d = earlier @ atleta # later"
      and ident: "getattr atleta ''id'' = Some (VUuid uid)"
      and firstone: "\<forall>a \<in> set earlier. getattr a ''id'' \<noteq> Some (VUuid uid)"
      and inst: "AtletaUpdate_validate atleta_up = Inr atleta_up"
      and columns: "getattr atleta_up ''categoria'' = None"
        "getattr atleta_up ''centro_treinamento'' = None"
  shows "((\<forall>c. getattr atleta_up ''cpf'' = Some c \<longrightarrow>
             getattr atleta ''cpf'' = Some c
             \<or> (\<forall>r \<in> set (earlier @ later). getattr r ''cpf'' \<noteq> Some c)) \<longrightarrow>
          (\<exists>atleta' rows.
             snd (update_atleta d uid atleta_up) = d\<lparr>atletas := rows\<rparr>
             \<and> mset rows = mset (earlier @ atleta' # later)
             \<and> (\<forall>k. getattr atleta' k =
                    (case getattr atleta_up k of Some v \<Rightarrow> Some v | None \<Rightarrow> getattr atleta k))
             \<and> getattr atleta' ''id'' = getattr atleta ''id''
             \<and> getattr atleta' ''creat_at'' = getattr atleta ''creat_at''))
       \<and> ((\<exists>c. getattr atleta_up ''cpf'' = Some c \<and> getattr atleta ''cpf'' \<noteq> Some c
              \<and> (\<exists>r \<in> set (earlier @ later). getattr r ''cpf'' = Some c)) \<longrightarrow>
          update_atleta d uid atleta_up = (Inl (IntegrityError unique_violation), d))"
proof -
  let ?new = "fold (\<lambda>(key, value) a. setattr a key value) atleta_up atleta"
  note keys = AtletaUpdate_instance [OF inst]
  have new: "getattr ?new k =
      (case getattr atleta_up k of Some v \<Rightarrow> Some v | None \<Rightarrow> getattr atleta k)" for k
    using keys(1) by (rule applied_fields)
  have "''id'' \<notin> set (map fst atleta_up)" "''creat_at'' \<notin> set (map fst atleta_up)"
    using keys(2) by auto
  then have kept: "getattr ?new ''id'' = getattr atleta ''id''"
    "getattr ?new ''creat_at'' = getattr atleta ''creat_at''"
    by (simp_all add: new getattr_None_iff [THEN iffD2])
  from columns have "''categoria'' \<notin> set (map fst atleta_up)"
    "''centro_treinamento'' \<notin> set (map fst atleta_up)"
    by (simp_all add: getattr_None_iff)
  then have "\<forall>k \<in> set (map fst atleta_up). k \<notin> AtletaModel_relationships"
    unfolding AtletaModel_relationships_def by blast
  then have loop: "setattr_items atleta atleta_up = Inr ?new"
    by (rule setattr_items_columns)
  have upd: "update_atleta d uid atleta_up =
      (case update_commit d earlier atleta ?new later of
         Inl e \<Rightarrow> (Inl e, d)
       | Inr (d', place) \<Rightarrow> (AtletaOut_model_validate d' ?new, d'))"
    by (simp add: update_existing [OF rows ident firstone] loop)
  have conflict: "getattr ?new ''cpf'' \<noteq> getattr atleta ''cpf'' \<and> cpf_taken (earlier @ later) ?new
     \<longleftrightarrow> (\<exists>c. getattr atleta_up ''cpf'' = Some c \<and> getattr atleta ''cpf'' \<noteq> Some c
              \<and> (\<exists>r \<in> set (earlier @ later). getattr r ''cpf'' = Some c))"
    by (cases "getattr atleta_up ''cpf''") (auto simp: new cpf_taken_def split: option.splits)
  show ?thesis
  proof (intro conjI impI)
    assume "\<forall>c. getattr atleta_up ''cpf'' = Some c \<longrightarrow>
             getattr atleta ''cpf'' = Some c
             \<or> (\<forall>r \<in> set (earlier @ later). getattr r ''cpf'' \<noteq> Some c)"
    then have "\<not> (getattr ?new ''cpf'' \<noteq> getattr atleta ''cpf''
        \<and> cpf_taken (earlier @ later) ?new)"
      unfolding conflict by blast
    then have "\<exists>d' place. update_commit d earlier atleta ?new later = Inr (d', place)"
      by (auto simp: update_commit_def)
    then obtain d' place where
      commit: "update_commit d earlier atleta ?new later = Inr (d', place)"
      by blast
    from refresh_after_commit(2) [OF rows commit] obtain rows' where
      "d' = d\<lparr>atletas := rows'\<rparr>" "mset rows' = mset (earlier @ ?new # later)"
      by blast
    moreover have "snd (update_atleta d uid atleta_up) = d'"
      by (simp add: upd commit)
    ultimately have "snd (update_atleta d uid atleta_up) = d\<lparr>atletas := rows'\<rparr>
        \<and> mset rows' = mset (earlier @ ?new # later)"
      by simp
    with new kept show "\<exists>atleta' rows.
             snd (update_atleta d uid atleta_up) = d\<lparr>atletas := rows\<rparr>
             \<and> mset rows = mset (earlier @ atleta' # later)
             \<and> (\<forall>k. getattr atleta' k =
                    (case getattr atleta_up k of Some v \<Rightarrow> Some v | None \<Rightarrow> getattr atleta k))
             \<and> getattr atleta' ''id'' = getattr atleta ''id''
             \<and> getattr atleta' ''creat_at'' = getattr atleta ''creat_at''"
      by blast
  next
    assume "\<exists>c. getattr atleta_up ''cpf'' = Some c \<and> getattr atleta ''cpf'' \<noteq> Some c
              \<and> (\<exists>r \<in> set (earlier @ later). getattr r ''cpf'' = Some c)"
    then have c: "getattr ?new ''cpf'' \<noteq> getattr atleta ''cpf''
        \<and> cpf_taken (earlier @ later) ?new"
      unfolding conflict .
    then have "?new \<noteq> atleta" by auto
    with c have "update_commit d earlier atleta ?new later = Inl (IntegrityError unique_violation)"
      by (simp add: update_commit_def)
    then show "update_atleta d uid atleta_up = (Inl (IntegrityError unique_violation), d)"
      by (simp add: upd)
  qed
qed

theorem partial_update_applies_witness:
  "atletas db_two = [] @ ana_row # [bia_row]
   \<and> AtletaUpdate_validate up_weight = Inr up_weight
   \<and> (\<exists>atleta' rows.
         snd (update_atleta db_two ''u1'' up_weight) = db_two\<lparr>atletas := rows\<rparr>
         \<and> mset rows = mset ([] @ atleta' # [bia_row])
         \<and> getattr atleta' ''weight'' = Some (VFloat 80.5)
         \<and> getattr atleta' ''nome'' = getattr ana_row ''nome''
         \<and> getattr atleta' ''cpf'' = getattr ana_row ''cpf''
         \<and> getattr atleta' ''id'' = getattr ana_row ''id''
         \<and> getattr atleta' ''creat_at'' = getattr ana_row ''creat_at'')"
proof -
  have rows: "atletas db_two = [] @ ana_row # [bia_row]"
    by (simp add: db_two_def)
  have ident: "getattr ana_row ''id'' = Some (VUuid ''u1'')"
    by (simp add: ex_defs getattr_def)
  have firstone: "\<forall>a \<in> set []. getattr a ''id'' \<noteq> Some (VUuid ''u1'')"
    by simp
  have columns: "getattr up_weight ''categoria'' = None"
    "getattr up_weight ''centro_treinamento'' = None"
    by (simp_all add: up_defs getattr_def)
  have free: "\<forall>c. getattr up_weight ''cpf'' = Some c \<longrightarrow>
             getattr ana_row ''cpf'' = Some c
             \<or> (\<forall>r \<in> set ([] @ [bia_row]). getattr r ''cpf'' \<noteq> Some c)"
    by (simp add: up_defs getattr_def)
  from partial_update_applies [OF rows ident firstone up_instances(1) columns] free
  obtain atleta' rows' where
    "snd (update_atleta db_two ''u1'' up_weight) = db_two\<lparr>atletas := rows'\<rparr>"
    "mset rows' = mset ([] @ atleta' # [bia_row])"
    "\<forall>k. getattr atleta' k =
        (case getattr up_weight k of Some v \<Rightarrow> Some v | None \<Rightarrow> getattr ana_row k)"
    "getattr atleta' ''id'' = getattr ana_row ''id''"
    "getattr atleta' ''creat_at'' = getattr ana_row ''creat_at''"
    by blast
  moreover from this(3) have "getattr atleta' ''weight'' = Some (VFloat 80.5)"
    "getattr atleta' ''nome'' = getattr ana_row ''nome''"
    "getattr atleta' ''cpf'' = getattr ana_row ''cpf''"
    by (simp_all add: up_defs getattr_def)
  ultimately show ?thesis
    using rows up_instances(1) by blast
qed

text \<open>
  C3, as the claim states it, fails: a partial update that names a category that is not in
  the store does not fail with 400 for the reference. The handler looks nothing up; the
  \<^verbatim>\<open>setattr\<close> of the relationship raises AttributeError, and the store is as it was.
\<close>

theorem update_unknown_category_raises:
  "first (filter_by ''nome'' (VStr ''Nope'') (categorias db_ana)) = None
   \<and> AtletaUpdate_validate up_categoria = Inr up_categoria
   \<and> update_atleta db_ana ''u1'' up_categoria =
       (Inl (AttributeError ''_sa_instance_state''), db_ana)"
  using update_ana_categoria up_instances by (simp add: ex_defs getattr_def filter_by_def)

text \<open>
  C3, amended. \<^verbatim>\<open>update_atleta\<close> resolves no reference: for every partial update it never
  raises the HTTP exception 400, and the athlete rows that it leaves do not depend on what
  the two reference tables hold.
\<close>

theorem update_resolves_no_reference:
  "(\<forall>msg. fst (update_atleta d uid atleta_up) \<noteq> Inl (HTTPException 400 msg))
   \<and> atletas (snd (update_atleta (d\<lparr>categorias := cs, centros_treinamento := ts\<rparr>) uid atleta_up))
       = atletas (snd (update_atleta d uid atleta_up))"
proof (intro conjI allI)
  fix msg
  show "fst (update_atleta d uid atleta_up) \<noteq> Inl (HTTPException 400 msg)"
    using update_cases [of d uid atleta_up] by auto
next
  show "atletas (snd (update_atleta (d\<lparr>categorias := cs, centros_treinamento := ts\<rparr>) uid atleta_up))
       = atletas (snd (update_atleta d uid atleta_up))"
  proof (cases "List.extract (has_id uid) (atletas d)")
    case None
    then show ?thesis by (simp add: update_atleta_def)
  next
    case (Some found)
    obtain earlier atleta later where found: "found = (earlier, atleta, later)"
      by (cases found)
    show ?thesis
    proof (cases "setattr_items atleta atleta_up")
      case (Inl e)
      then show ?thesis by (simp add: update_atleta_def Some found)
    next
      case (Inr a')
      then show ?thesis
        by (auto simp: update_atleta_def Some found update_commit_def refresh_def
            split: sum.splits)
    qed
  qed
qed

theorem update_resolves_no_reference_witness:
  "fst (update_atleta db_ana ''u1'' up_categoria)
      \<noteq> Inl (HTTPException 400
            (''Categoria '' @ [CHR 0x27] @ ''Nope'' @ [CHR 0x27] @ '' n'' @ [CHR 0xE3]
               @ ''o encontrada''))
   \<and> atletas (snd (update_atleta (db_two\<lparr>categorias := [], centros_treinamento := []\<rparr>)
         ''u1'' up_weight))
       = atletas (snd (update_atleta db_two ''u1'' up_weight))"
  using update_resolves_no_reference [of db_ana "''u1''" up_categoria]
    update_resolves_no_reference [of db_two "''u1''" up_weight "[]" "[]"]
  by blast

section \<open>Listing with filters\<close>

lemma contains_sublist: "contains xs ys \<longleftrightarrow> sublist xs ys"
  by (induction ys) (simp_all add: sublist_Cons_right)

lemma ilike_percent: "ilike lc [CHR ''%''] t"
  by (induction t) simp_all

lemma ilike_percent_Cons:
  "ilike lc (CHR ''%'' # ps) t \<longleftrightarrow> (\<exists>pre r. t = pre @ r \<and> ilike lc ps r)"
proof (induction t)
  case Nil
  then show ?case by simp
next
  case (Cons c cs)
  have "(\<exists>pre r. c # cs = pre @ r \<and> ilike lc ps r)
      \<longleftrightarrow> ilike lc ps (c # cs) \<or> (\<exists>pre r. cs = pre @ r \<and> ilike lc ps r)"
    by (auto simp: Cons_eq_append_conv)
  with Cons show ?case by simp
qed

lemma literal_step:
  "(\<exists>u r. c # cs = u @ r \<and> map lc u = map lc (a # s) \<and> ilike lc ps r)
     \<longleftrightarrow> lc c = lc a \<and> (\<exists>u r. cs = u @ r \<and> map lc u = map lc s \<and> ilike lc ps r)"
proof
  assume "\<exists>u r. c # cs = u @ r \<and> map lc u = map lc (a # s) \<and> ilike lc ps r"
  then obtain u r where u: "c # cs = u @ r" "map lc u = map lc (a # s)" "ilike lc ps r"
    by blast
  from u(2) obtain x u' where u': "u = x # u'" by (cases u) auto
  with u have "x = c" "cs = u' @ r" "lc c = lc a" "map lc u' = map lc s"
    by auto
  with u(3) show "lc c = lc a \<and> (\<exists>u r. cs = u @ r \<and> map lc u = map lc s \<and> ilike lc ps r)"
    by blast
next
  assume "lc c = lc a \<and> (\<exists>u r. cs = u @ r \<and> map lc u = map lc s \<and> ilike lc ps r)"
  then obtain u r where "lc c = lc a" "cs = u @ r" "map lc u = map lc s" "ilike lc ps r"
    by blast
  then have "c # cs = (c # u) @ r \<and> map lc (c # u) = map lc (a # s) \<and> ilike lc ps r"
    by simp
  then show "\<exists>u r. c # cs = u @ r \<and> map lc u = map lc (a # s) \<and> ilike lc ps r"
    by blast
qed

lemma ilike_literal:
  "like_free s \<Longrightarrow>
   ilike lc (s @ ps) t \<longleftrightarrow> (\<exists>u r. t = u @ r \<and> map lc u = map lc s \<and> ilike lc ps r)"
proof (induction s arbitrary: t)
  case Nil
  then show ?case by simp
next
  case (Cons a s)
  then have a: "a \<noteq> CHR ''%''" "a \<noteq> CHR ''_''" "a \<noteq> CHR 0x5C" and free: "like_free s"
    by (simp_all add: like_free_def)
  show ?case
  proof (cases t)
    case Nil
    with a show ?thesis by simp
  next
    case t: (Cons c cs)
    have "ilike lc ((a # s) @ ps) (c # cs) \<longleftrightarrow> lc c = lc a \<and> ilike lc (s @ ps) cs"
      using a by simp
    also have "\<dots> \<longleftrightarrow> lc c = lc a
        \<and> (\<exists>u r. cs = u @ r \<and> map lc u = map lc s \<and> ilike lc ps r)"
      by (simp only: Cons.IH [OF free])
    also have "\<dots> \<longleftrightarrow> (\<exists>u r. c # cs = u @ r \<and> map lc u = map lc (a # s) \<and> ilike lc ps r)"
      by (rule literal_step [symmetric])
    finally show ?thesis by (simp only: t)
  qed
qed

lemma ilike_contains:
  assumes "like_free s"
  shows "ilike lc (CHR ''%'' # s @ ''%'') t \<longleftrightarrow> name_contains lc s t"
proof -
  have "ilike lc (CHR ''%'' # s @ ''%'') t \<longleftrightarrow> (\<exists>pre r. t = pre @ r \<and> ilike lc (s @ ''%'') r)"
    by (rule ilike_percent_Cons)
  also have "\<dots> \<longleftrightarrow> (\<exists>pre r. t = pre @ r \<and> (\<exists>u r'. r = u @ r' \<and> map lc u = map lc s))"
    by (simp only: ilike_literal [OF assms]) (simp add: ilike_percent)
  also have "\<dots> \<longleftrightarrow> (\<exists>pre u r'. t = pre @ u @ r' \<and> map lc u = map lc s)"
    by blast
  also have "\<dots> \<longleftrightarrow> sublist (map lc s) (map lc t)"
  proof
    assume "\<exists>pre u r. t = pre @ u @ r \<and> map lc u = map lc s"
    then obtain pre u r where "t = pre @ u @ r" "map lc u = map lc s" by blast
    then have "map lc t = map lc pre @ map lc s @ map lc r" by simp
    then show "sublist (map lc s) (map lc t)" unfolding sublist_def by blast
  next
    assume "sublist (map lc s) (map lc t)"
    then obtain p q where "map lc t = p @ map lc s @ q" by (auto simp: sublist_def)
    then have "\<exists>us vs. t = us @ vs \<and> p = map lc us \<and> map lc s @ q = map lc vs"
      by (simp add: map_eq_append_conv)
    then obtain pre rest where 1: "t = pre @ rest" "map lc s @ q = map lc rest"
      by blast
    from 1(2) have "\<exists>us vs. rest = us @ vs \<and> map lc s = map lc us \<and> q = map lc vs"
      by (simp add: append_eq_map_conv)
    then obtain u r where "rest = u @ r" "map lc u = map lc s"
      by metis
    with 1 show "\<exists>pre u r. t = pre @ u @ r \<and> map lc u = map lc s" by blast
  qed
  finally show ?thesis by (simp add: name_contains_def contains_sublist)
qed

lemma matches_filters_code:
  assumes "\<forall>n. nome = Some n \<longrightarrow> like_free n"
  shows "matches_filters lc nome cpf a \<longleftrightarrow>
      (truthy nome \<longrightarrow> nome_ilike lc (''%'' @ the nome @ ''%'') a)
    \<and> (truthy cpf \<longrightarrow> getattr a ''cpf'' = Some (VStr (the cpf)))"
proof -
  have n: "(case nome of None \<Rightarrow> True
       | Some n \<Rightarrow> n = [] \<or> (case getattr a ''nome'' of Some (VStr s) \<Rightarrow> name_contains lc n s | _ \<Rightarrow> False))
     \<longleftrightarrow> (truthy nome \<longrightarrow> nome_ilike lc (''%'' @ the nome @ ''%'') a)"
  proof (cases nome)
    case None
    then show ?thesis by (simp add: truthy_def)
  next
    case (Some n)
    with assms have "like_free n" by simp
    then have "ilike lc (CHR ''%'' # n @ ''%'') s \<longleftrightarrow> name_contains lc n s" for s
      by (rule ilike_contains)
    then show ?thesis
      by (auto simp: Some truthy_def nome_ilike_def split: option.splits val.splits)
  qed
  have c: "(case cpf of None \<Rightarrow> True | Some c \<Rightarrow> c = [] \<or> getattr a ''cpf'' = Some (VStr c))
     \<longleftrightarrow> (truthy cpf \<longrightarrow> getattr a ''cpf'' = Some (VStr (the cpf)))"
    by (cases cpf) (auto simp: truthy_def)
  show ?thesis
    unfolding matches_filters_def n c ..
qed

lemma query_all_filter:
  "query_all_atletas d nome cpf =
     (traverse (AtletaOut_model_validate d)
        (filter (\<lambda>a. (truthy nome \<longrightarrow> nome_ilike (lc_lower d) (''%'' @ the nome @ ''%'') a)
                    \<and> (truthy cpf \<longrightarrow> getattr a ''cpf'' = Some (VStr (the cpf))))
           (atletas d)), d)"
  by (cases "truthy nome"; cases "truthy cpf")
     (simp_all add: query_all_atletas_def Let_def del: append.simps)

lemma all_Inr_list_all2:
  "\<forall>a \<in> set xs. \<exists>out. f a = Inr out \<Longrightarrow> \<exists>outs. list_all2 (\<lambda>a out. f a = Inr out) xs outs"
proof (induction xs)
  case Nil
  then show ?case by simp
next
  case (Cons x xs)
  then obtain y ys where "f x = Inr y" "list_all2 (\<lambda>a out. f a = Inr out) xs ys" by auto
  then have "list_all2 (\<lambda>a out. f a = Inr out) (x # xs) (y # ys)" by simp
  then show ?case by blast
qed

lemma get_rows_three:
  "AtletaOut_model_validate db_three ana_row = Inr ana_out"
  "AtletaOut_model_validate db_three bia_row = Inr bia_out"
  "AtletaOut_model_validate db_three eve_row = Inr eve_out"
  by (simp_all add: ex_defs names_defs filter_by_def getattr_def AtletaOut_model_validate_def
      AtletaModel_attributes_def AtletaModel_relationships_def relationship_def schema_defs)

text \<open>
  A name filter is a pattern: an underscore in it stands for any one character, so the
  filter \<^verbatim>\<open>a_a\<close> lists an athlete whose name does not contain it.
\<close>

lemma underscore_filter_matches_any_character:
  "query_all_atletas db_three (Some ''a_a'') None = (Inr [ana_out], db_three)
   \<and> \<not> name_contains (lc_lower db_three) ''a_a'' ''Ana''"
proof -
  have lc: "lc_lower db_three = lower"
    by (simp add: names_defs db_ex_def)
  have sel: "filter (nome_ilike lower ''%a_a%'') (atletas db_three) = [ana_row]"
    by (simp add: nome_ilike_def lower_defs ex_defs names_defs getattr_def)
  have "query_all_atletas db_three (Some ''a_a'') None = (Inr [ana_out], db_three)"
    by (simp add: query_all_atletas_def truthy_def lc sel get_rows_three)
  moreover have "\<not> name_contains lower ''a_a'' ''Ana''"
    by (simp add: name_contains_def lower_defs)
  ultimately show ?thesis by (simp add: lc)
qed

text \<open>
  C5, as the claim states it, fails: with the cpf filter present and empty the listing has
  the stored athlete, whose cpf is not the empty string; the handler skips a filter that
  is empty.
\<close>

theorem empty_cpf_filter_lists_all:
  "atletas db_ana = [ana_row]
   \<and> getattr ana_row ''cpf'' = Some (VStr ''123'')
   \<and> query_all_atletas db_ana None (Some []) = (Inr [ana_out], db_ana)"
  by (simp add: query_all_atletas_def truthy_def)
     (simp add: ex_defs filter_by_def getattr_def AtletaOut_model_validate_def
      AtletaModel_attributes_def AtletaModel_relationships_def relationship_def schema_defs)

text \<open>
  C5, amended. For every store and every pair of filters, the name filter having no
  percent sign, underscore or backslash, the listing is the validation, in the order of the
  store, of exactly the athletes that match: when the name filter is present and not empty,
  those whose name contains it as a substring, two letters being the same when the case
  mapping of the database takes them to one letter; when the cpf filter is present and not
  empty, those whose cpf is equal to it; with both, those that match both; a filter that
  is absent or empty restricts nothing. When every stored row validates, the listing
  succeeds and has one record for each matching athlete.
\<close>

theorem list_filters:
  assumes "\<forall>n. nome = Some n \<longrightarrow> like_free n"
  shows "query_all_atletas d nome cpf =
           (traverse (AtletaOut_model_validate d)
              (filter (matches_filters (lc_lower d) nome cpf) (atletas d)), d)
       \<and> ((\<forall>a \<in> set (atletas d). \<exists>out. AtletaOut_model_validate d a = Inr out) \<longrightarrow>
           (\<exists>outs. query_all_atletas d nome cpf = (Inr outs, d)
              \<and> list_all2 (\<lambda>a out. AtletaOut_model_validate d a = Inr out)
                   (filter (matches_filters (lc_lower d) nome cpf) (atletas d)) outs))"
proof -
  have eq: "query_all_atletas d nome cpf =
           (traverse (AtletaOut_model_validate d)
              (filter (matches_filters (lc_lower d) nome cpf) (atletas d)), d)"
    unfolding query_all_filter matches_filters_code [OF assms, where lc = "lc_lower d", abs_def] ..
  have "(\<forall>a \<in> set (atletas d). \<exists>out. AtletaOut_model_validate d a = Inr out) \<longrightarrow>
     (\<exists>outs. list_all2 (\<lambda>a out. AtletaOut_model_validate d a = Inr out)
                   (filter (matches_filters (lc_lower d) nome cpf) (atletas d)) outs)"
    using all_Inr_list_all2
      [of "filter (matches_filters (lc_lower d) nome cpf) (atletas d)"
          "AtletaOut_model_validate d"]
    by simp
  with eq show ?thesis
    by (auto dest: traverse_all_Inr)
qed

theorem list_filters_witness:
  "like_free ''AN'' \<and> like_free [CHR 0xE9]
   \<and> lc_lower db_three = lower
   \<and> filter (matches_filters lower (Some ''AN'') None) (atletas db_three) = [ana_row]
   \<and> query_all_atletas db_three (Some ''AN'') None = (Inr [ana_out], db_three)
   \<and> filter (matches_filters lower (Some [CHR 0xE9]) None) (atletas db_three) = [eve_row]
   \<and> query_all_atletas db_three (Some [CHR 0xE9]) None = (Inr [eve_out], db_three)"
proof -
  have lc: "lc_lower db_three = lower"
    by (simp add: names_defs db_ex_def)
  have free: "\<forall>n. Some ''AN'' = Some n \<longrightarrow> like_free n"
    "\<forall>n. Some [CHR 0xE9] = Some n \<longrightarrow> like_free n"
    by (simp_all add: like_free_def)
  have sel: "filter (matches_filters lower (Some ''AN'') None) (atletas db_three) = [ana_row]"
    "filter (matches_filters lower (Some [CHR 0xE9]) None) (atletas db_three) = [eve_row]"
    by (simp_all add: matches_filters_def name_contains_def lower_defs ex_defs names_defs
        getattr_def)
  from list_filters [OF free(1), of db_three None] list_filters [OF free(2), of db_three None]
  have "query_all_atletas db_three (Some ''AN'') None =
      (traverse (AtletaOut_model_validate db_three)
         (filter (matches_filters lower (Some ''AN'') None) (atletas db_three)), db_three)"
    "query_all_atletas db_three (Some [CHR 0xE9]) None =
      (traverse (AtletaOut_model_validate db_three)
         (filter (matches_filters lower (Some [CHR 0xE9]) None) (atletas db_three)), db_three)"
    unfolding lc by blast+
  then have "query_all_atletas db_three (Some ''AN'') None = (Inr [ana_out], db_three)"
    "query_all_atletas db_three (Some [CHR 0xE9]) None = (Inr [eve_out], db_three)"
    by (simp_all only: sel) (simp_all add: get_rows_three)
  with sel lc show ?thesis by (simp add: like_free_def)
qed

end
